theory Spec2Isabelle
  imports Complex_Main "HOL-Library.Word"
begin

section \<open>Go values: machine integers, floats, time\<close>

text \<open>
  \<open>uint64\<close> is a 64-bit word: \<open>+\<close> and \<open>-\<close> wrap around, \<open>uint\<close> reads the value.
  Go's \<open>int\<close> (64 bits, two's complement) is an \<open>int\<close> kept in range by \<open>int64\<close>,
  which is applied wherever the source does arithmetic on it.
  The conversions \<open>uint64(i)\<close> and \<open>int(u)\<close> keep the bit pattern.
\<close>

type_synonym uint64 = "64 word"

definition int64 :: "int \<Rightarrow> int" where
  "int64 x = (x + 2 ^ 63) mod 2 ^ 64 - 2 ^ 63"

definition uint64_of_int :: "int \<Rightarrow> uint64" where
  "uint64_of_int i = word_of_int i"

definition int_of_uint64 :: "uint64 \<Rightarrow> int" where
  "int_of_uint64 u = sint u"

text \<open>
  A finite \<open>float64\<close> is the real number it denotes, and a field of type \<open>float64\<close>
  holds such a number. Every float64 operation of Go computes the exact result and
  rounds it to the nearest float64, ties to even: \<open>round64\<close> is that rounding to 53
  significant bits, with the subnormal spacing below \<open>2 ^ -1022\<close>. \<open>bitLength\<close> is the
  number of binary digits of a positive integer, \<open>float_exp x\<close> the exponent \<open>e\<close> with
  \<open>2 ^ e \<le> x < 2 ^ (e + 1)\<close> for a positive \<open>x\<close>. Infinities and NaN are not modelled:
  a result beyond the largest float64 stays the real number it is.
\<close>

function bitLength :: "int \<Rightarrow> nat" where
  "bitLength n = (if n \<le> 0 then 0 else Suc (bitLength (n div 2)))"
  by pat_completeness auto
termination
  by (relation "measure nat") auto

declare bitLength.simps [simp del]

definition float_exp :: "real \<Rightarrow> int" where
  "float_exp x =
     (if 1 \<le> x then int (bitLength \<lfloor>x\<rfloor>) - 1 else - int (bitLength (\<lceil>1 / x\<rceil> - 1)))"

definition pow2 :: "int \<Rightarrow> real" where
  "pow2 k = (if 0 \<le> k then 2 ^ nat k else 1 / 2 ^ nat (- k))"

definition round_even :: "real \<Rightarrow> int" where
  "round_even x =
     (let f = \<lfloor>x\<rfloor>; d = x - of_int f
      in if d < 1 / 2 then f else if 1 / 2 < d then f + 1 else if even f then f else f + 1)"

definition round64 :: "real \<Rightarrow> real" where
  "round64 x =
     (if x = 0 then 0
      else let a = \<bar>x\<bar>;
               q = max (float_exp a) (- 1022) - 52;
               r = of_int (round_even (a / pow2 q)) * pow2 q
           in if x < 0 then - r else r)"

text \<open>The arithmetic of float64 operands: \<open>x * y\<close>, \<open>x - y\<close> and \<open>x / y\<close>.\<close>

definition fmul :: "real \<Rightarrow> real \<Rightarrow> real" where
  "fmul x y = round64 (x * y)"

definition fsub :: "real \<Rightarrow> real \<Rightarrow> real" where
  "fsub x y = round64 (x - y)"

definition fdiv :: "real \<Rightarrow> real \<Rightarrow> real" where
  "fdiv x y = round64 (x / y)"

text \<open>
  The conversions \<open>float64(u)\<close> and \<open>float64(i)\<close> round an integer of more than 53 bits.
  The conversion of a float to an integer truncates towards zero; where the truncated
  value does not fit the target type, Go leaves the result to the implementation, and
  the model wraps it to the width of the type.
\<close>

definition float64_of_uint64 :: "uint64 \<Rightarrow> real" where
  "float64_of_uint64 u = round64 (real_of_int (uint u))"

definition float64_of_int :: "int \<Rightarrow> real" where
  "float64_of_int i = round64 (real_of_int i)"

definition float_trunc :: "real \<Rightarrow> int" where
  "float_trunc x = (if 0 \<le> x then \<lfloor>x\<rfloor> else \<lceil>x\<rceil>)"

definition uint64_of_float64 :: "real \<Rightarrow> uint64" where
  "uint64_of_float64 x = word_of_int (float_trunc x)"

definition int_of_float64 :: "real \<Rightarrow> int" where
  "int_of_float64 x = int64 (float_trunc x)"

text \<open>
  \<open>time.Time\<close> and \<open>time.Duration\<close> are counts of nanoseconds; \<open>time.Since(t)\<close> is
  \<open>time_Sub now t\<close> with \<open>now\<close> the clock's reading, which the functions that read the
  clock take as an argument.
\<close>

type_synonym time = int
type_synonym duration = int

definition time_Sub :: "time \<Rightarrow> time \<Rightarrow> duration" where
  "time_Sub now t = now - t"

definition maxUint64 :: "uint64 \<Rightarrow> uint64 \<Rightarrow> uint64" where
  "maxUint64 a b = (if a > b then a else b)"

section \<open>The two tiers: a buffered channel and the ring buffer\<close>

text \<open>
  A buffered channel \<open>chan T\<close>: its queued values, oldest first, and its capacity.
  Only the non-blocking operations of a \<open>select\<close> with a \<open>default\<close> case and the
  blocking send are used by the pool.
\<close>

record 'a chan =
  chan_buf :: "'a list"
  chan_cap :: nat

definition make_chan :: "nat \<Rightarrow> 'a chan" where
  "make_chan n = \<lparr>chan_buf = [], chan_cap = n\<rparr>"

definition len_chan :: "'a chan \<Rightarrow> int" where
  "len_chan ch = int (length (chan_buf ch))"

definition try_send :: "'a chan \<Rightarrow> 'a \<Rightarrow> 'a chan option" where
  "try_send ch x =
     (if length (chan_buf ch) < chan_cap ch
      then Some (ch\<lparr>chan_buf := chan_buf ch @ [x]\<rparr>) else None)"

definition try_recv :: "'a chan \<Rightarrow> ('a \<times> 'a chan) option" where
  "try_recv ch =
     (case chan_buf ch of [] \<Rightarrow> None | x # xs \<Rightarrow> Some (x, ch\<lparr>chan_buf := xs\<rparr>))"

text \<open>
  Modelled from the spec: the ring buffer, whose code is not in the source files
  (\<open>helpers.go\<close> calls its constructor as \<open>New[T](capacity)\<close>). The spec says that it is a
  bounded FIFO with \<open>new_ring_buffer(capacity)\<close>, \<open>write\<close>, \<open>write_many\<close>, \<open>get_n\<close> (whose empty
  sentinel is not fatal), \<open>length\<close>, \<open>clear_remaining\<close> and \<open>copy_config\<close>.
  \<open>ClearRemaining\<close> is called without an argument and as a statement: it empties the
  buffer, and the values it held are gone with it. A buffer is made from a capacity
  alone and is given the other buffer's blocking configuration: it holds no cleaner to
  call. The operations are modelled in their non-blocking
  behaviour; the pool never asks for more values than \<open>Length\<close> reports.
\<close>

record 'a RingBuffer =
  rb_items :: "'a list"
  rb_size :: nat
  rb_block :: bool
  rb_rTimeout :: duration
  rb_wTimeout :: duration

datatype rb_error = ErrIsEmpty | ErrIsFull

definition New :: "int \<Rightarrow> 'a RingBuffer" where
  "New n = \<lparr>rb_items = [], rb_size = nat n, rb_block = False, rb_rTimeout = 0, rb_wTimeout = 0\<rparr>"

definition CopyConfig :: "'a RingBuffer \<Rightarrow> 'a RingBuffer \<Rightarrow> 'a RingBuffer" where
  "CopyConfig r src =
     r\<lparr>rb_block := rb_block src, rb_rTimeout := rb_rTimeout src, rb_wTimeout := rb_wTimeout src\<rparr>"

definition Length :: "'a RingBuffer \<Rightarrow> int" where
  "Length r = int (length (rb_items r))"

definition Write :: "'a RingBuffer \<Rightarrow> 'a \<Rightarrow> 'a RingBuffer \<times> rb_error option" where
  "Write r x =
     (if length (rb_items r) < rb_size r
      then (r\<lparr>rb_items := rb_items r @ [x]\<rparr>, None) else (r, Some ErrIsFull))"

fun WriteMany :: "'a RingBuffer \<Rightarrow> 'a list \<Rightarrow> 'a RingBuffer \<times> int \<times> rb_error option" where
  "WriteMany r [] = (r, 0, None)"
| "WriteMany r (x # xs) =
     (case Write r x of
        (r', None) \<Rightarrow> (case WriteMany r' xs of (r'', n, e) \<Rightarrow> (r'', n + 1, e))
      | (r', Some e) \<Rightarrow> (r', 0, Some e))"

definition GetN :: "'a RingBuffer \<Rightarrow> int \<Rightarrow> 'a RingBuffer \<times> 'a list option \<times> rb_error option" where
  "GetN r n =
     (if n \<le> 0 then (r, None, None)
      else if rb_items r = [] then (r, None, Some ErrIsEmpty)
      else (r\<lparr>rb_items := drop (nat n) (rb_items r)\<rparr>, Some (take (nat n) (rb_items r)), None))"

definition ClearRemaining :: "'a RingBuffer \<Rightarrow> 'a RingBuffer" where
  "ClearRemaining r = r\<lparr>rb_items := []\<rparr>"

section \<open>The statistics snapshot\<close>

text \<open>
  \<open>poolStats\<close>, \<open>PoolStatsSnapshot\<close>, \<open>GetPoolStatsSnapshot\<close> and \<open>Validate\<close> of the
  statistics file. The mutex of \<open>poolStats\<close> carries no data. The pool of that file is the
  record \<open>Pool\<close>; of its fields, the snapshot reads the channel, the ring buffer and the
  statistics.
\<close>

record poolStats =
  objectsCreated :: int
  objectsDestroyed :: int
  initialCapacity :: int
  currentCapacity :: int
  totalGets :: uint64
  totalGrowthEvents :: int
  FastReturnHit :: uint64
  FastReturnMiss :: uint64
  totalShrinkEvents :: int
  consecutiveShrinks :: int
  lastShrinkTime :: time
  lastL1ResizeAtGrowthNum :: int
  lastResizeAtShrinkNum :: int
  currentL1Capacity :: int

record 'a Pool =
  cacheL1 :: "'a chan"
  pool :: "'a RingBuffer"
  stats :: poolStats

text \<open>
  The two float fields: \<open>L2SpillRate\<close> keeps its zero value when nothing was returned;
  \<open>Utilization\<close> is a quotient whose divisor can be zero, where a \<open>float64\<close> is an
  infinity or not a number: \<open>None\<close> here.
\<close>

record PoolStatsSnapshot =
  InitialCapacity :: int
  CurrentCapacity :: int
  ObjectsInUse :: uint64
  TotalGets :: uint64
  TotalGrowthEvents :: int
  ObjectsCreated :: int
  ObjectsDestroyed :: int
  FastReturnHit :: uint64
  FastReturnMiss :: uint64
  TotalShrinkEvents :: int
  ConsecutiveShrinks :: int
  LastShrinkTime :: time
  LastL1ResizeAtGrowthNum :: int
  LastResizeAtShrinkNum :: int
  CurrentL1Capacity :: int
  AvailableObjects :: int
  RingBufferLength :: int
  L1Length :: int
  L2SpillRate :: real
  Utilization :: "real option"

definition GetPoolStatsSnapshot :: "'a Pool \<Rightarrow> PoolStatsSnapshot" where
  "GetPoolStatsSnapshot p =
     (let fastReturnHit = poolStats.FastReturnHit (stats p);
          fastReturnMiss = poolStats.FastReturnMiss (stats p);
          totalReturns = fastReturnHit + fastReturnMiss;
          l2SpillRate =
            (if totalReturns > 0
             then fdiv (float64_of_uint64 fastReturnMiss) (float64_of_uint64 totalReturns) else 0);
          l1Len = len_chan (cacheL1 p);
          totalPuts = poolStats.FastReturnHit (stats p) + poolStats.FastReturnMiss (stats p);
          totalGets = poolStats.totalGets (stats p);
          objectsInUse = totalGets - totalPuts
      in \<lparr>InitialCapacity = initialCapacity (stats p),
          CurrentCapacity = currentCapacity (stats p),
          ObjectsInUse = objectsInUse,
          TotalGets = totalGets,
          TotalGrowthEvents = totalGrowthEvents (stats p),
          ObjectsCreated = objectsCreated (stats p),
          ObjectsDestroyed = objectsDestroyed (stats p),
          FastReturnHit = fastReturnHit,
          FastReturnMiss = fastReturnMiss,
          TotalShrinkEvents = totalShrinkEvents (stats p),
          ConsecutiveShrinks = consecutiveShrinks (stats p),
          LastShrinkTime = lastShrinkTime (stats p),
          LastL1ResizeAtGrowthNum = lastL1ResizeAtGrowthNum (stats p),
          LastResizeAtShrinkNum = lastResizeAtShrinkNum (stats p),
          CurrentL1Capacity = currentL1Capacity (stats p),
          AvailableObjects = int64 (currentCapacity (stats p) - int_of_uint64 objectsInUse),
          RingBufferLength = Length (pool p),
          L1Length = l1Len,
          L2SpillRate = l2SpillRate,
          Utilization =
            (if currentCapacity (stats p) = 0 then None
             else Some (fdiv (float64_of_uint64 objectsInUse)
                          (float64_of_int (currentCapacity (stats p)))))\<rparr>)"

text \<open>
  \<open>Validate\<close> formats one of four messages; the error value keeps the numbers of the
  message. The receiver is only read: the snapshot is returned beside the result as it
  was passed.
\<close>

datatype validate_error =
    ReturnsDoNotMatchGets uint64 uint64
  | GetsDoNotMatchRequests uint64 int
  | ObjectsInUseNotZero uint64
  | AvailableDoesNotMatchCapacity int int

definition Validate :: "PoolStatsSnapshot \<Rightarrow> int \<Rightarrow> PoolStatsSnapshot \<times> validate_error option" where
  "Validate s reqNum =
     (let totalReturns = FastReturnHit s + FastReturnMiss s
      in if totalReturns \<noteq> TotalGets s
           then (s, Some (ReturnsDoNotMatchGets totalReturns (TotalGets s)))
         else if TotalGets s \<noteq> uint64_of_int reqNum
           then (s, Some (GetsDoNotMatchRequests (TotalGets s) reqNum))
         else if ObjectsInUse s \<noteq> 0
           then (s, Some (ObjectsInUseNotZero (ObjectsInUse s)))
         else if AvailableObjects s \<noteq> CurrentCapacity s
           then (s, Some (AvailableDoesNotMatchCapacity (AvailableObjects s) (CurrentCapacity s)))
         else (s, None))"

text \<open>
  A pool of capacity ten of which three values were materialised and none handed out:
  the channel is empty and the ring buffer holds the three.
\<close>

definition snapshot_pool :: "nat Pool" where
  "snapshot_pool =
     \<lparr>cacheL1 = make_chan 4,
      pool = (New 10)\<lparr>rb_items := [0, 1, 2]\<rparr>,
      stats = \<lparr>objectsCreated = 3, objectsDestroyed = 0, initialCapacity = 10,
               currentCapacity = 10, totalGets = 0, totalGrowthEvents = 0,
               FastReturnHit = 0, FastReturnMiss = 0, totalShrinkEvents = 0,
               consecutiveShrinks = 0, lastShrinkTime = 0, lastL1ResizeAtGrowthNum = 0,
               lastResizeAtShrinkNum = 0, currentL1Capacity = 4\<rparr>\<rparr>"

text \<open>The same pool after five gets and four puts, one of which missed the channel.\<close>

definition returned_pool :: "nat Pool" where
  "returned_pool =
     snapshot_pool\<lparr>stats := (stats snapshot_pool)\<lparr>totalGets := 5,
        poolStats.FastReturnHit := 3, poolStats.FastReturnMiss := 1\<rparr>\<rparr>"

section \<open>The pool of the helper functions\<close>

text \<open>
  The configuration and the state that \<open>helpers.go\<close> reads and writes: the records
  hold the fields that its functions use, under the names and with the types they are
  used with. The counters are atomic \<open>uint64\<close> cells. \<open>cleaned\<close> is a ghost log of the
  values the cleaner was called on. \<open>allocAmount\<close>, \<open>lastGrowTime\<close>, \<open>allocator\<close> and
  \<open>created\<close>, the count of the values the allocator has made, serve the growth
  routine, which is modelled from the spec below. Logging under
  \<open>config.verbose\<close> changes no state and is left out; a method whose receiver is
  read for the logging only (\<open>calculateNewPoolCapacity\<close>) is a function of its
  arguments.
\<close>

record growthParameters =
  exponentialThresholdFactor :: real
  growthPercent :: real
  fixedGrowthFactor :: real

record shrinkParameters =
  idleThreshold :: duration
  minIdleBeforeShrink :: int
  shrinkPercent :: real
  minCapacity :: int

record fastPathParameters =
  growthEventsTrigger :: int
  shrinkEventsTrigger :: int
  enableChannelGrowth :: bool
  growth :: growthParameters
  shrink :: shrinkParameters

record poolConfig =
  initialCapacity :: int
  hardLimit :: int
  allocAmount :: int
  growth :: growthParameters
  shrink :: shrinkParameters
  fastPath :: fastPathParameters

record atomicStats =
  objectsInUse :: uint64
  l1HitCount :: uint64
  blockedGets :: uint64
  currentCapacity :: uint64
  currentL1Capacity :: uint64
  totalGrowthEvents :: uint64
  lastResizeAtGrowthNum :: uint64
  totalShrinkEvents :: uint64
  consecutiveShrinks :: uint64
  lastResizeAtShrinkNum :: uint64
  lastTimeCalledGet :: time
  lastShrinkTime :: time
  lastGrowTime :: time

record 'a pool =
  cacheL1 :: "'a chan"
  pool :: "'a RingBuffer"
  config :: poolConfig
  stats :: atomicStats
  isGrowthBlocked :: bool
  allocator :: "nat \<Rightarrow> 'a"
  created :: nat
  cleaned :: "'a list"

text \<open>
  What can keep a function from returning: a blocking send on a full channel, and
  \<open>make\<close> with a negative size.
\<close>

datatype fault = BlocksForever | PanicMakeChan

definition send :: "'a chan \<Rightarrow> 'a \<Rightarrow> fault + 'a chan" where
  "send ch x = (case try_send ch x of Some ch' \<Rightarrow> Inr ch' | None \<Rightarrow> Inl BlocksForever)"

subsection \<open>Decrementing a counter\<close>

text \<open>
  \<open>releaseObj\<close>, \<open>reduceL1Hit\<close> and \<open>reduceBlockedGets\<close> run the same loop on three cells:
  load; stop at zero; compare-and-swap to the value less one; stop when the swap
  succeeded. \<open>casDecrement\<close> is that loop run alone on a cell; \<open>None\<close> is a loop that
  never leaves.
\<close>

definition CompareAndSwap :: "uint64 \<Rightarrow> uint64 \<Rightarrow> uint64 \<Rightarrow> uint64 \<times> bool" where
  "CompareAndSwap cell old new = (if cell = old then (new, True) else (cell, False))"

partial_function (option) casDecrement :: "uint64 \<Rightarrow> uint64 option" where
  "casDecrement cell =
     (let old = cell
      in if old = 0 then Some cell
         else (case CompareAndSwap cell old (old - 1) of
                 (cell', swapped) \<Rightarrow> if swapped then Some cell' else casDecrement cell'))"

definition releaseObj :: "'a pool \<Rightarrow> 'a \<Rightarrow> 'a pool option" where
  "releaseObj p obj =
     (let p1 = p\<lparr>cleaned := cleaned p @ [obj]\<rparr>
      in map_option (\<lambda>c. p1\<lparr>stats := (stats p1)\<lparr>objectsInUse := c\<rparr>\<rparr>)
           (casDecrement (objectsInUse (stats p1))))"

definition reduceL1Hit :: "'a pool \<Rightarrow> 'a pool option" where
  "reduceL1Hit p =
     map_option (\<lambda>c. p\<lparr>stats := (stats p)\<lparr>l1HitCount := c\<rparr>\<rparr>)
       (casDecrement (l1HitCount (stats p)))"

definition reduceBlockedGets :: "'a pool \<Rightarrow> 'a pool option" where
  "reduceBlockedGets p =
     map_option (\<lambda>c. p\<lparr>stats := (stats p)\<lparr>blockedGets := c\<rparr>\<rparr>)
       (casDecrement (blockedGets (stats p)))"

text \<open>
  The same loop run by any number of goroutines on one cell. A goroutine is about to
  load, or holds the value it loaded and is about to compare-and-swap, or has left the
  loop. One step is one atomic operation of one goroutine.
\<close>

datatype pc = AtLoad | AtCAS uint64 | Left

inductive dec_step :: "uint64 \<times> (nat \<Rightarrow> pc) \<Rightarrow> uint64 \<times> (nat \<Rightarrow> pc) \<Rightarrow> bool" where
  load_zero: "pcs t = AtLoad \<Longrightarrow> cell = 0 \<Longrightarrow> dec_step (cell, pcs) (cell, pcs(t := Left))"
| load_pos: "pcs t = AtLoad \<Longrightarrow> cell \<noteq> 0 \<Longrightarrow> dec_step (cell, pcs) (cell, pcs(t := AtCAS cell))"
| cas_ok: "pcs t = AtCAS old \<Longrightarrow> CompareAndSwap cell old (old - 1) = (cell', True) \<Longrightarrow>
     dec_step (cell, pcs) (cell', pcs(t := Left))"
| cas_fail: "pcs t = AtCAS old \<Longrightarrow> CompareAndSwap cell old (old - 1) = (cell', False) \<Longrightarrow>
     dec_step (cell, pcs) (cell', pcs(t := AtLoad))"

text \<open>The configurations that runs reach from a start in which no goroutine has loaded yet.\<close>

inductive dec_reachable :: "uint64 \<times> (nat \<Rightarrow> pc) \<Rightarrow> bool" where
  start: "(\<And>t. pcs t = AtLoad \<or> pcs t = Left) \<Longrightarrow> dec_reachable (cell, pcs)"
| step: "dec_reachable c \<Longrightarrow> dec_step c c' \<Longrightarrow> dec_reachable c'"

subsection \<open>Growth\<close>

definition calculateNewPoolCapacity ::
    "uint64 \<Rightarrow> uint64 \<Rightarrow> uint64 \<Rightarrow> growthParameters \<Rightarrow> uint64" where
  "calculateNewPoolCapacity currentCap threshold fixedStep cfg =
     (if currentCap < threshold
      then (let growth = maxUint64 (uint64_of_float64 (fmul (float64_of_uint64 currentCap) (growthPercent cfg))) 1;
                newCap = currentCap + growth
            in newCap)
      else (let newCap = currentCap + fixedStep in newCap))"

definition growthWouldExceedHardLimit :: "'a pool \<Rightarrow> uint64 \<Rightarrow> bool" where
  "growthWouldExceedHardLimit p newCapacity =
     (newCapacity > uint64_of_int (hardLimit (config p))
      \<and> currentCapacity (stats p) \<ge> uint64_of_int (hardLimit (config p)))"

definition needsToShrinkToHardLimit :: "'a pool \<Rightarrow> uint64 \<Rightarrow> uint64 \<Rightarrow> bool" where
  "needsToShrinkToHardLimit p currentCap newCapacity =
     (currentCap < uint64_of_int (hardLimit (config p))
      \<and> newCapacity > uint64_of_int (hardLimit (config p)))"

fun drain :: "'a list \<Rightarrow> 'a chan \<Rightarrow> fault + 'a chan" where
  "drain [] newL1 = Inr newL1"
| "drain (obj # rest) newL1 =
     (case send newL1 obj of Inl f \<Rightarrow> Inl f | Inr newL1' \<Rightarrow> drain rest newL1')"

definition tryL1ResizeIfTriggered :: "'a pool \<Rightarrow> fault + 'a pool" where
  "tryL1ResizeIfTriggered p =
     (let trigger = uint64_of_int (growthEventsTrigger (fastPath (config p)))
      in if \<not> enableChannelGrowth (fastPath (config p)) then Inr p
         else let sinceLastResize = totalGrowthEvents (stats p) - lastResizeAtGrowthNum (stats p)
           in if sinceLastResize < trigger then Inr p
              else let cfg = fastPathParameters.growth (fastPath (config p));
                       currentCap = currentL1Capacity (stats p);
                       threshold = uint64_of_float64 (fmul (float64_of_uint64 currentCap) (exponentialThresholdFactor cfg));
                       step = uint64_of_float64 (fmul (float64_of_uint64 currentCap) (fixedGrowthFactor cfg));
                       newCap = (if currentCap < threshold
                                 then currentCap + maxUint64 (uint64_of_float64 (fmul (float64_of_uint64 currentCap) (growthPercent cfg))) 1
                                 else currentCap + step)
                in case drain (chan_buf (cacheL1 p)) (make_chan (unat newCap)) of
                     Inl f \<Rightarrow> Inl f
                   | Inr newL1 \<Rightarrow>
                       Inr (p\<lparr>cacheL1 := newL1,
                              stats := (stats p)\<lparr>currentL1Capacity := newCap,
                                                 lastResizeAtGrowthNum := totalGrowthEvents (stats p)\<rparr>\<rparr>))"

text \<open>
  Modelled from the spec: the capacity that growth proposes. The caller of
  \<open>calculateNewPoolCapacity\<close> is \<open>grow\<close>, which is not in the source files. The spec
  (growth controller): the threshold is the initial capacity times the threshold
  factor, and the linear step is the larger of one and the current capacity times the
  big growth factor.
\<close>

definition proposedCapacity :: "'a pool \<Rightarrow> uint64" where
  "proposedCapacity p =
     (let cfg = growth (config p);
          currentCap = currentCapacity (stats p);
          threshold = uint64_of_float64
                        (fmul (float64_of_int (initialCapacity (config p))) (exponentialThresholdFactor cfg));
          fixedStep = maxUint64
                        (uint64_of_float64 (fmul (float64_of_uint64 currentCap) (fixedGrowthFactor cfg))) 1
      in calculateNewPoolCapacity currentCap threshold fixedStep cfg)"

text \<open>
  Modelled from the spec: \<open>grow\<close> is called by \<open>refill\<close> and is not in the source
  files. The spec (growth controller): if the new capacity is above the hard limit and
  the current one is at or above it, set \<open>growth_blocked\<close> and fail; if the current
  capacity is below the hard limit and the new one above it, clamp to the hard limit;
  materialise \<open>alloc_amount\<close> values, or as many as the capacity grows by, whichever is
  smaller and positive, and place them into L2, whose capacity grows to the new
  capacity if it is less; grow L1 if enabled and triggered; count the growth event and
  record its time. The two tests and the L1 resize are the functions of the source.
\<close>

definition grow :: "time \<Rightarrow> 'a pool \<Rightarrow> fault + 'a pool \<times> bool" where
  "grow now p =
     (let currentCap = currentCapacity (stats p);
          proposed = proposedCapacity p
      in if growthWouldExceedHardLimit p proposed
         then Inr (p\<lparr>isGrowthBlocked := True\<rparr>, False)
         else let newCapacity = (if needsToShrinkToHardLimit p currentCap proposed
                                 then uint64_of_int (hardLimit (config p)) else proposed);
                  delta = uint (newCapacity - currentCap);
                  amount = (if 0 < allocAmount (config p) \<and> allocAmount (config p) < delta
                            then allocAmount (config p) else delta);
                  objs = map (allocator p) [created p ..< created p + nat amount];
                  l2 = (pool p)\<lparr>rb_size := max (rb_size (pool p)) (unat newCapacity)\<rparr>;
                  p1 = p\<lparr>pool := fst (WriteMany l2 objs),
                         created := created p + nat amount,
                         stats := (stats p)\<lparr>currentCapacity := newCapacity\<rparr>\<rparr>
              in case tryL1ResizeIfTriggered p1 of
                   Inl f \<Rightarrow> Inl f
                 | Inr p2 \<Rightarrow>
                     Inr (p2\<lparr>stats := (stats p2)\<lparr>totalGrowthEvents := totalGrowthEvents (stats p2) + 1,
                                                   lastGrowTime := now\<rparr>\<rparr>, True))"

subsection \<open>The idle check of the shrink controller\<close>

text \<open>
  \<open>idles\<close> and \<open>shrinkPermissionIdleness\<close> are the two cells the caller passes by
  pointer; the function returns their new contents. \<open>now\<close> is the clock's reading.
\<close>

definition IndleCheck :: "time \<Rightarrow> 'a pool \<Rightarrow> int \<Rightarrow> bool \<Rightarrow> int \<times> bool" where
  "IndleCheck now p idles shrinkPermissionIdleness =
     (let idleDuration = time_Sub now (lastTimeCalledGet (stats p));
          threshold = idleThreshold (shrink (config p));
          required = minIdleBeforeShrink (shrink (config p))
      in if idleDuration \<ge> threshold
         then (let idles' = int64 (idles + 1)
               in (idles', if idles' \<ge> required then True else shrinkPermissionIdleness))
         else ((if idles > 0 then int64 (idles - 1) else idles), shrinkPermissionIdleness))"

subsection \<open>Refill\<close>

text \<open>
  \<open>Reason\<close> is a string built from constants that are declared outside the source
  files; each constant is a constructor, and \<open>NoReason\<close> is the empty string of a fresh
  result. \<open>refill\<close> takes the growth routine it calls as its first argument. The part
  of its body after the growth attempt is \<open>refillMove\<close>, the loop over the items is
  \<open>moveItems\<close>.
\<close>

datatype refill_reason =
    NoReason
  | GrowthBlocked
  | GrowthFailed
  | RingBufferError rb_error
  | NoItemsToMove
  | RefillSucceeded

record RefillResult =
  Success :: bool
  Reason :: refill_reason
  ItemsMoved :: int
  ItemsFailed :: int
  GrowthNeeded :: bool
  GrowthBlocked :: bool

definition zeroRefillResult :: RefillResult where
  "zeroRefillResult =
     \<lparr>Success = False, Reason = NoReason, ItemsMoved = 0, ItemsFailed = 0,
      GrowthNeeded = False, GrowthBlocked = False\<rparr>"

fun moveItems ::
    "'a list \<Rightarrow> 'a chan \<Rightarrow> 'a RingBuffer \<Rightarrow> RefillResult
       \<Rightarrow> 'a chan \<times> 'a RingBuffer \<times> RefillResult" where
  "moveItems [] l1 l2 result = (l1, l2, result)"
| "moveItems (item # items) l1 l2 result =
     (case try_send l1 item of
        Some l1' \<Rightarrow> moveItems items l1' l2 (result\<lparr>ItemsMoved := int64 (ItemsMoved result + 1)\<rparr>)
      | None \<Rightarrow>
          moveItems items l1 (fst (Write l2 item))
            (result\<lparr>ItemsFailed := int64 (ItemsFailed result + 1)\<rparr>))"

definition refillMove :: "'a pool \<Rightarrow> int \<Rightarrow> RefillResult \<Rightarrow> 'a pool \<times> RefillResult" where
  "refillMove p fillTarget result =
     (let currentObjsAvailable = Length (pool p);
          toMove = min fillTarget currentObjsAvailable
      in case GetN (pool p) toMove of
           (l2, items, err) \<Rightarrow>
             if err \<noteq> None \<and> err \<noteq> Some ErrIsEmpty
               then (p\<lparr>pool := l2\<rparr>, result\<lparr>Reason := RingBufferError (the err)\<rparr>)
             else if items = None \<and> err = None
               then (p\<lparr>pool := l2\<rparr>, result\<lparr>Reason := NoItemsToMove\<rparr>)
             else (case moveItems (case items of None \<Rightarrow> [] | Some xs \<Rightarrow> xs) (cacheL1 p) l2 result of
                     (l1', l2', result') \<Rightarrow>
                       (p\<lparr>cacheL1 := l1', pool := l2'\<rparr>,
                        result'\<lparr>Success := True, Reason := RefillSucceeded\<rparr>)))"

definition refill ::
    "(time \<Rightarrow> 'a pool \<Rightarrow> fault + 'a pool \<times> bool) \<Rightarrow> time \<Rightarrow> 'a pool \<Rightarrow> int
       \<Rightarrow> fault + 'a pool \<times> RefillResult" where
  "refill growFn now p fillTarget =
     (let result = zeroRefillResult;
          noObjsAvailable = (Length (pool p) = 0);
          biggerRequestThanAvailable = (fillTarget > Length (pool p))
      in if noObjsAvailable \<or> biggerRequestThanAvailable
         then (if isGrowthBlocked p
               then Inr (p, result\<lparr>Reason := refill_reason.GrowthBlocked, GrowthBlocked := True\<rparr>)
               else (case growFn now p of
                       Inl f \<Rightarrow> Inl f
                     | Inr (p1, grown) \<Rightarrow>
                         if \<not> grown then Inr (p1, result\<lparr>Reason := GrowthFailed\<rparr>)
                         else Inr (refillMove p1 fillTarget (result\<lparr>GrowthNeeded := True\<rparr>))))
         else Inr (refillMove p fillTarget result))"

subsection \<open>Shrink execution\<close>

definition shouldShrinkMainPool :: "'a pool \<Rightarrow> uint64 \<Rightarrow> int \<Rightarrow> int \<Rightarrow> bool" where
  "shouldShrinkMainPool p currentCap newCap inUse =
     (let minCap = minCapacity (shrink (config p))
      in if newCap = 0 then False
         else if currentCap \<le> uint64_of_int minCap then False
         else if newCap \<ge> int_of_uint64 currentCap then False
         else (let totalAvailable = int64 (Length (pool p) + len_chan (cacheL1 p))
               in if totalAvailable = 0 then False else True))"

definition adjustMainShrinkTarget :: "'a pool \<Rightarrow> int \<Rightarrow> int \<Rightarrow> int \<times> 'a pool" where
  "adjustMainShrinkTarget p newCap inUse =
     (let minCap = minCapacity (shrink (config p));
          newCap1 = (if newCap < minCap then minCap else newCap);
          newCap2 = (if newCap1 < inUse then inUse else newCap1);
          p1 = (if newCap2 < hardLimit (config p) then p\<lparr>isGrowthBlocked := False\<rparr> else p)
      in (newCap2, p1))"

text \<open>
  \<open>performShrink\<close> empties the old ring buffer with \<open>ClearRemaining\<close> and puts the new
  one in its place: the old buffer is no part of the pool afterwards. The function does
  not call \<open>p.cleaner\<close>, so the log of cleaned values stays as it is.
\<close>

definition performShrink :: "time \<Rightarrow> 'a pool \<Rightarrow> int \<Rightarrow> int \<Rightarrow> uint64 \<Rightarrow> 'a pool" where
  "performShrink now p newCapacity inUse currentCap =
     (let availableToKeep = int64 (newCapacity - inUse)
      in if availableToKeep \<le> 0 then p
         else
           let newRingBuffer = CopyConfig (New newCapacity) (pool p);
               itemsToKeep = min availableToKeep (Length (pool p));
               moved =
                 (if itemsToKeep > 0
                  then (case GetN (pool p) itemsToKeep of
                          (old, items, err) \<Rightarrow>
                            if err \<noteq> None \<and> err \<noteq> Some ErrIsEmpty then Inl (p\<lparr>pool := old\<rparr>)
                            else (case WriteMany newRingBuffer (case items of None \<Rightarrow> [] | Some xs \<Rightarrow> xs) of
                                    (new, n, err') \<Rightarrow>
                                      if err' \<noteq> None then Inl (p\<lparr>pool := old\<rparr>) else Inr (old, new)))
                  else Inr (pool p, newRingBuffer))
           in case moved of
                Inl aborted \<Rightarrow> aborted
              | Inr (old, new) \<Rightarrow>
                  let cleared = ClearRemaining old
                  in p\<lparr>pool := new,
                       stats := (stats p)\<lparr>currentCapacity := uint64_of_int newCapacity,
                                          totalShrinkEvents := totalShrinkEvents (stats p) + 1,
                                          lastShrinkTime := now,
                                          consecutiveShrinks := consecutiveShrinks (stats p) + 1\<rparr>\<rparr>)"

definition shouldShrinkFastPath :: "'a pool \<Rightarrow> bool" where
  "shouldShrinkFastPath p =
     (let sinceLast = totalShrinkEvents (stats p) - lastResizeAtShrinkNum (stats p);
          trigger = uint64_of_int (shrinkEventsTrigger (fastPath (config p)))
      in sinceLast \<ge> trigger)"

definition adjustFastPathShrinkTarget :: "'a pool \<Rightarrow> uint64 \<Rightarrow> int" where
  "adjustFastPathShrinkTarget p currentCap =
     (let cfg = fastPathParameters.shrink (fastPath (config p));
          newCap = int_of_float64 (fmul (float64_of_uint64 currentCap) (fsub 1 (shrinkPercent cfg)))
      in if newCap < minCapacity cfg then minCapacity cfg else newCap)"

fun copyLoop :: "nat \<Rightarrow> 'a chan \<Rightarrow> 'a chan \<Rightarrow> fault + 'a chan \<times> 'a chan" where
  "copyLoop 0 old newL1 = Inr (old, newL1)"
| "copyLoop (Suc n) old newL1 =
     (case try_recv old of
        Some (obj, old') \<Rightarrow>
          (case send newL1 obj of Inl f \<Rightarrow> Inl f | Inr newL1' \<Rightarrow> copyLoop n old' newL1')
      | None \<Rightarrow> copyLoop n old newL1)"

definition shrinkFastPath :: "'a pool \<Rightarrow> int \<Rightarrow> int \<Rightarrow> fault + 'a pool" where
  "shrinkFastPath p newCapacity inUse =
     (let availableObjsToCopy = int64 (newCapacity - inUse)
      in if availableObjsToCopy \<le> 0 then Inr p
         else let copyCount = min availableObjsToCopy (len_chan (cacheL1 p))
           in if newCapacity < 0 then Inl PanicMakeChan
              else (case copyLoop (nat copyCount) (cacheL1 p) (make_chan (nat newCapacity)) of
                      Inl f \<Rightarrow> Inl f
                    | Inr (old, newL1) \<Rightarrow>
                        Inr (p\<lparr>cacheL1 := newL1,
                               stats := (stats p)\<lparr>lastResizeAtShrinkNum := totalShrinkEvents (stats p)\<rparr>\<rparr>)))"

definition ShrinkExecution :: "time \<Rightarrow> 'a pool \<Rightarrow> fault + 'a pool" where
  "ShrinkExecution now p =
     (let currentCap = currentCapacity (stats p);
          inUse = int_of_uint64 (objectsInUse (stats p));
          newCapacity = int_of_float64
                          (fmul (float64_of_uint64 currentCap) (fsub 1 (shrinkPercent (shrink (config p)))))
      in if \<not> shouldShrinkMainPool p currentCap newCapacity inUse then Inr p
         else (case adjustMainShrinkTarget p newCapacity inUse of
                 (newCapacity', p1) \<Rightarrow>
                   let p2 = performShrink now p1 newCapacity' inUse currentCap
                   in if \<not> enableChannelGrowth (fastPath (config p2)) \<or> \<not> shouldShrinkFastPath p2
                      then Inr p2
                      else (let currentCapL1 = currentL1Capacity (stats p2);
                                newCapacityL1 = adjustFastPathShrinkTarget p2 currentCapL1
                            in shrinkFastPath p2 newCapacityL1 inUse)))"

section \<open>A pool to run the functions on\<close>

text \<open>
  Capacity eight under a hard limit of sixteen: two values wait in the channel, four in
  the ring buffer, two are handed out. The channel does not grow.
\<close>

definition example_growth :: growthParameters where
  "example_growth =
     \<lparr>exponentialThresholdFactor = 4, growthPercent = 1 / 2, fixedGrowthFactor = 1\<rparr>"

definition example_shrink :: shrinkParameters where
  "example_shrink =
     \<lparr>idleThreshold = 100, minIdleBeforeShrink = 2, shrinkPercent = 1 / 2, minCapacity = 2\<rparr>"

definition example_config :: poolConfig where
  "example_config =
     \<lparr>initialCapacity = 8, hardLimit = 16, allocAmount = 4,
      growth = example_growth, shrink = example_shrink,
      fastPath = \<lparr>growthEventsTrigger = 1, shrinkEventsTrigger = 1,
                  enableChannelGrowth = False,
                  fastPathParameters.growth = example_growth,
                  fastPathParameters.shrink = example_shrink\<rparr>\<rparr>"

definition example_stats :: atomicStats where
  "example_stats =
     \<lparr>objectsInUse = 2, l1HitCount = 1, blockedGets = 0, currentCapacity = 8,
      currentL1Capacity = 4, totalGrowthEvents = 0, lastResizeAtGrowthNum = 0,
      totalShrinkEvents = 0, consecutiveShrinks = 0, lastResizeAtShrinkNum = 0,
      lastTimeCalledGet = 0, lastShrinkTime = 0, lastGrowTime = 0\<rparr>"

definition example_pool :: "nat pool" where
  "example_pool =
     \<lparr>cacheL1 = \<lparr>chan_buf = [0, 1], chan_cap = 4\<rparr>,
      pool = (New 8)\<lparr>rb_items := [2, 3, 4, 5]\<rparr>,
      config = example_config,
      stats = example_stats,
      isGrowthBlocked = False,
      allocator = (\<lambda>n. n),
      created = 8,
      cleaned = []\<rparr>"

text \<open>
  The same pool grown to its hard limit, grown to twelve, and with both tiers empty.
\<close>

definition at_limit_pool :: "nat pool" where
  "at_limit_pool =
     example_pool\<lparr>stats := example_stats\<lparr>currentCapacity := 16\<rparr>,
                   pool := (New 16)\<lparr>rb_items := [2, 3, 4, 5]\<rparr>\<rparr>"

definition near_limit_pool :: "nat pool" where
  "near_limit_pool =
     example_pool\<lparr>stats := example_stats\<lparr>currentCapacity := 12\<rparr>,
                   pool := (New 12)\<lparr>rb_items := [2, 3, 4, 5]\<rparr>\<rparr>"



text \<open>
  Percentages as a configuration holds them: the float64 values nearest to 0.15 and to
  0.29 for growth, and nearest to 0.05 and to 0.9 for shrinking.
\<close>

definition growth_15_percent :: growthParameters where
  "growth_15_percent =
     \<lparr>exponentialThresholdFactor = 4, growthPercent = 5404319552844595 / 2 ^ 55,
      fixedGrowthFactor = 1\<rparr>"

definition growth_29_percent :: growthParameters where
  "growth_29_percent =
     \<lparr>exponentialThresholdFactor = 4, growthPercent = 5224175567749775 / 2 ^ 54,
      fixedGrowthFactor = 1\<rparr>"



text \<open>
  A pool of initial capacity two that has grown to eight, its threshold; a pool of
  capacity twenty that shrinks by 0.05, and one of capacity ten that shrinks by 0.9,
  both under a hard limit of 32.
\<close>

definition linear_pool :: "nat pool" where
  "linear_pool = example_pool\<lparr>config := example_config\<lparr>initialCapacity := 2\<rparr>\<rparr>"



section \<open>Properties\<close>

subsection \<open>Integers in range\<close>

lemma int64_id: "- (2 ^ 63) \<le> x \<Longrightarrow> x < 2 ^ 63 \<Longrightarrow> int64 x = x"
  by (simp add: int64_def)

lemma int_of_uint64_small: "uint u < 2 ^ 63 \<Longrightarrow> int_of_uint64 u = uint u"
proof -
  assume "uint u < 2 ^ 63"
  moreover have "- (2 ^ 63) \<le> uint u"
    by (rule order_trans [of _ 0]) simp_all
  ultimately have "signed_take_bit 63 (uint u) = uint u"
    by (simp add: signed_take_bit_int_eq_self)
  then show ?thesis
    by (simp add: int_of_uint64_def sint_uint)
qed

lemma uint64_of_int_eq_iff:
  "0 \<le> n \<Longrightarrow> n < 2 ^ 63 \<Longrightarrow> (w = uint64_of_int n \<longleftrightarrow> uint w = n)"
proof -
  assume n: "0 \<le> n" "n < 2 ^ 63"
  then have "uint (word_of_int n :: uint64) = n"
    by (simp add: uint_word_of_int_eq take_bit_int_eq_self)
  then show ?thesis
    unfolding uint64_of_int_def by (metis word_of_int_uint)
qed

lemma uint_decremented: "uint (if c = 0 then 0 else c - 1 :: uint64) = max 0 (uint c - 1)"
proof (cases "c = 0")
  case True
  then show ?thesis by simp
next
  case False
  then have "uint c \<noteq> 0" by (simp add: uint_0_iff)
  then have "1 \<le> uint c" using uint_ge_0 [of c] by linarith
  then have "uint (1 :: uint64) \<le> uint c" by simp
  then have "uint (c - 1) = uint c - uint (1 :: uint64)" by (simp only: uint_sub_lem)
  with False \<open>1 \<le> uint c\<close> show ?thesis by simp
qed

subsection \<open>Rounding to float64\<close>

lemma pow2_pos: "0 < pow2 k"
  by (simp add: pow2_def)

lemma round_even_nonneg: "0 \<le> x \<Longrightarrow> 0 \<le> round_even x"
proof -
  assume "0 \<le> x"
  then have "0 \<le> \<lfloor>x\<rfloor>" by simp
  then show ?thesis by (simp add: round_even_def Let_def)
qed

lemma round64_nonneg: "0 \<le> x \<Longrightarrow> 0 \<le> round64 x"
proof (cases "x = 0")
  case True
  then show ?thesis by (simp add: round64_def)
next
  case False
  assume "0 \<le> x"
  with False have x: "0 < x" by simp
  let ?q = "max (float_exp \<bar>x\<bar>) (- 1022) - 52"
  have "0 \<le> \<bar>x\<bar> / pow2 ?q" using pow2_pos [of ?q] by simp
  then have "0 \<le> round_even (\<bar>x\<bar> / pow2 ?q)" by (rule round_even_nonneg)
  then have "0 \<le> real_of_int (round_even (\<bar>x\<bar> / pow2 ?q)) * pow2 ?q"
    using pow2_pos [of ?q] by simp
  with x show ?thesis by (simp add: round64_def Let_def)
qed

lemma round_even_of_int: "round_even (of_int n) = n"
  by (simp add: round_even_def Let_def)

lemma bitLength_le: "n < 2 ^ k \<Longrightarrow> bitLength n \<le> k"
proof (induction k arbitrary: n)
  case 0
  then show ?case by (simp add: bitLength.simps)
next
  case (Suc k)
  show ?case
  proof (cases "n \<le> 0")
    case True
    then show ?thesis by (simp add: bitLength.simps)
  next
    case False
    from Suc.prems have "n div 2 < 2 ^ k" by simp
    from Suc.IH [OF this] False show ?thesis by (subst bitLength.simps) simp
  qed
qed

lemma bitLength_pos: "0 < n \<Longrightarrow> 0 < bitLength n"
  by (subst bitLength.simps) simp

lemma round64_2_53: "round64 9007199254740992 = 9007199254740992"
  by code_simp

text \<open>An integer of at most 53 bits is a float64.\<close>

lemma round64_of_int:
  assumes "0 \<le> n" and "n \<le> 2 ^ 53"
  shows "round64 (of_int n) = of_int n"
proof (cases "n = 0")
  case True
  then show ?thesis by (simp add: round64_def)
next
  case False
  with assms have pos: "0 < n" by simp
  show ?thesis
  proof (cases "n = 2 ^ 53")
    case True
    then show ?thesis using round64_2_53 by simp
  next
    case False
    with assms have lt: "n < 2 ^ 53" by simp
    define e where "e = bitLength n"
    define d where "d = 53 - e"
    have e1: "0 < e" unfolding e_def using pos by (rule bitLength_pos)
    have e53: "e \<le> 53" unfolding e_def using lt by (rule bitLength_le)
    have fe: "float_exp (of_int n) = int e - 1"
      using pos by (simp add: float_exp_def e_def)
    have q: "max (float_exp (of_int n)) (- 1022) - 52 = - int d"
      using pos fe e1 e53 by (simp add: d_def)
    have p: "pow2 (- int d) = 1 / 2 ^ d"
      by (simp add: pow2_def)
    have "real_of_int n / (1 / 2 ^ d) = of_int (n * 2 ^ d)" by simp
    then have r: "round_even (real_of_int n / (1 / 2 ^ d)) = n * 2 ^ d"
      by (simp only: round_even_of_int)
    have "round64 (of_int n) = of_int (round_even (of_int n / pow2 (- int d))) * pow2 (- int d)"
      using pos by (simp add: round64_def Let_def q)
    also have "\<dots> = of_int (n * 2 ^ d) * (1 / 2 ^ d)"
      by (simp only: p r)
    finally have "round64 (of_int n) = of_int (n * 2 ^ d) * (1 / 2 ^ d)" .
    then show ?thesis by simp
  qed
qed

lemma round64_quarter: "round64 (1 / 4) = 1 / 4"
  by code_simp

lemma float64_of_uint64_exact: "uint u \<le> 2 ^ 53 \<Longrightarrow> float64_of_uint64 u = real_of_int (uint u)"
  unfolding float64_of_uint64_def by (rule round64_of_int) simp_all

lemma float64_of_uint64_nonneg: "0 \<le> float64_of_uint64 u"
  unfolding float64_of_uint64_def by (rule round64_nonneg) (simp only: of_int_0_le_iff uint_ge_0)

lemma fmul_nonneg: "0 \<le> x \<Longrightarrow> 0 \<le> y \<Longrightarrow> 0 \<le> fmul x y"
  unfolding fmul_def by (rule round64_nonneg) (rule mult_nonneg_nonneg)

subsection \<open>The counters that are decremented\<close>

lemma casDecrement_eq: "casDecrement c = Some (if c = 0 then 0 else c - 1)"
  by (subst casDecrement.simps) (simp add: CompareAndSwap_def Let_def)

text \<open>A goroutine that is about to compare-and-swap loaded a value that was not zero.\<close>

lemma dec_reachable_cas_nonzero:
  "dec_reachable c \<Longrightarrow> snd c t = AtCAS old \<Longrightarrow> old \<noteq> 0"
proof (induction arbitrary: t old rule: dec_reachable.induct)
  case (start pcs cell)
  from start.hyps [of t] start.prems show ?case by auto
next
  case (step c c')
  from step.hyps(2) show ?case
  proof (cases rule: dec_step.cases)
    case (load_zero pcs u cell)
    with step.IH [of t old] step.prems show ?thesis by (simp split: if_splits)
  next
    case (load_pos pcs u cell)
    with step.IH [of t old] step.prems show ?thesis by (simp split: if_splits)
  next
    case (cas_ok pcs u old' cell cell')
    with step.IH [of t old] step.prems show ?thesis by (simp split: if_splits)
  next
    case (cas_fail pcs u old' cell cell')
    with step.IH [of t old] step.prems show ?thesis by (simp split: if_splits)
  qed
qed

lemma dec_step_counter:
  assumes "dec_reachable c" and "dec_step c c'"
  shows "fst c' = fst c \<or> (fst c \<noteq> 0 \<and> fst c' = fst c - 1)"
  using assms(2)
proof (cases rule: dec_step.cases)
  case (cas_ok pcs t old cell cell')
  with dec_reachable_cas_nonzero [OF assms(1), of t old] show ?thesis
    by (simp add: CompareAndSwap_def split: if_splits)
next
  case (cas_fail pcs t old cell cell')
  then show ?thesis by (simp add: CompareAndSwap_def split: if_splits)
qed simp_all

text \<open>
  C10. \<open>releaseObj\<close>, \<open>reduceL1Hit\<close> and \<open>reduceBlockedGets\<close> return, and leave their
  counter (objects in use, L1 hits, blocked gets) at the old value less one when it was
  positive and at zero when it was zero; the value read as a number is the old one
  less one, stopped at zero, so nothing wraps around. With any number of goroutines in
  the loop at once, every atomic step leaves the counter as it is or takes exactly one
  from a counter that is not zero.
\<close>

theorem stat_counters_never_underflow:
  "releaseObj p obj =
     Some (p\<lparr>cleaned := cleaned p @ [obj],
             stats := (stats p)\<lparr>objectsInUse :=
               (if objectsInUse (stats p) = 0 then 0 else objectsInUse (stats p) - 1)\<rparr>\<rparr>)
   \<and> reduceL1Hit p =
     Some (p\<lparr>stats := (stats p)\<lparr>l1HitCount :=
               (if l1HitCount (stats p) = 0 then 0 else l1HitCount (stats p) - 1)\<rparr>\<rparr>)
   \<and> reduceBlockedGets p =
     Some (p\<lparr>stats := (stats p)\<lparr>blockedGets :=
               (if blockedGets (stats p) = 0 then 0 else blockedGets (stats p) - 1)\<rparr>\<rparr>)
   \<and> uint (if c = 0 then 0 else c - 1 :: uint64) = max 0 (uint c - 1)
   \<and> (dec_reachable cfg \<longrightarrow> dec_step cfg cfg' \<longrightarrow>
        fst cfg' = fst cfg \<or> (fst cfg \<noteq> 0 \<and> uint (fst cfg') = uint (fst cfg) - 1))"
proof -
  have "releaseObj p obj =
     Some (p\<lparr>cleaned := cleaned p @ [obj],
             stats := (stats p)\<lparr>objectsInUse :=
               (if objectsInUse (stats p) = 0 then 0 else objectsInUse (stats p) - 1)\<rparr>\<rparr>)"
    by (simp add: releaseObj_def casDecrement_eq Let_def)
  moreover have "reduceL1Hit p =
     Some (p\<lparr>stats := (stats p)\<lparr>l1HitCount :=
               (if l1HitCount (stats p) = 0 then 0 else l1HitCount (stats p) - 1)\<rparr>\<rparr>)"
    by (simp add: reduceL1Hit_def casDecrement_eq)
  moreover have "reduceBlockedGets p =
     Some (p\<lparr>stats := (stats p)\<lparr>blockedGets :=
               (if blockedGets (stats p) = 0 then 0 else blockedGets (stats p) - 1)\<rparr>\<rparr>)"
    by (simp add: reduceBlockedGets_def casDecrement_eq)
  moreover have "fst cfg' = fst cfg \<or> (fst cfg \<noteq> 0 \<and> uint (fst cfg') = uint (fst cfg) - 1)"
    if "dec_reachable cfg" "dec_step cfg cfg'"
  proof -
    from dec_step_counter [OF that]
    consider "fst cfg' = fst cfg" | "fst cfg \<noteq> 0" "fst cfg' = fst cfg - 1" by blast
    then show ?thesis
    proof cases
      case 1
      then show ?thesis by simp
    next
      case 2
      with uint_decremented [of "fst cfg"] have "uint (fst cfg') = max 0 (uint (fst cfg) - 1)"
        by simp
      moreover from 2(1) have "uint (fst cfg) \<noteq> 0" by (simp add: uint_0_iff)
      then have "1 \<le> uint (fst cfg)" using uint_ge_0 [of "fst cfg"] by linarith
      ultimately show ?thesis using 2(1) by simp
    qed
  qed
  ultimately show ?thesis using uint_decremented [of c] by blast
qed

theorem stat_counters_never_underflow_witness:
  "map_option (\<lambda>q. objectsInUse (stats q)) (releaseObj example_pool 7) = Some 1
   \<and> map_option (\<lambda>q. blockedGets (stats q)) (reduceBlockedGets example_pool) = Some 0
   \<and> dec_reachable (2, (\<lambda>_. AtLoad)(0 := AtCAS 2))
   \<and> dec_step (2, (\<lambda>_. AtLoad)(0 := AtCAS 2)) (1, (\<lambda>_. AtLoad)(0 := Left))
   \<and> uint (1 :: uint64) = uint (2 :: uint64) - 1"
proof -
  let ?pcs = "(\<lambda>_. AtLoad) :: nat \<Rightarrow> pc"
  have r0: "dec_reachable (2, ?pcs)"
    by (rule dec_reachable.start) simp
  have "dec_step (2, ?pcs) (2, ?pcs(0 := AtCAS 2))"
    by (rule dec_step.load_pos) simp_all
  with r0 have r: "dec_reachable (2, ?pcs(0 := AtCAS 2))"
    by (rule dec_reachable.step)
  have "dec_step (2, ?pcs(0 := AtCAS 2)) (1, (?pcs(0 := AtCAS 2))(0 := Left))"
    by (rule dec_step.cas_ok [where old = 2]) (simp_all add: CompareAndSwap_def)
  then have s: "dec_step (2, ?pcs(0 := AtCAS 2)) (1, ?pcs(0 := Left))"
    by simp
  from stat_counters_never_underflow
         [of example_pool 7 2 "(2, ?pcs(0 := AtCAS 2))" "(1, ?pcs(0 := Left))"] r s
  show ?thesis
    by (simp add: example_pool_def example_stats_def)
qed

subsection \<open>The snapshot and its validation\<close>

text \<open>
  C7, as the code has it. The snapshot's available objects are the current capacity less
  the objects in use, which are the gets less the returns (hits and misses); without
  wrap-around that is the plain difference. The lengths of the channel and of the ring
  buffer are reported beside it, as \<open>L1Length\<close> and \<open>RingBufferLength\<close>. The spill rate
  is the misses over the returns once a value has been returned: the float64 quotient
  of the two counts converted to float64, which for counts of at most \<open>2 ^ 53\<close> is the
  quotient of the two numbers rounded to the nearest float64.
\<close>

theorem snapshot_derived_metrics:
  "AvailableObjects (GetPoolStatsSnapshot p) =
     int64 (poolStats.currentCapacity (Pool.stats p)
            - int_of_uint64 (ObjectsInUse (GetPoolStatsSnapshot p)))
   \<and> ObjectsInUse (GetPoolStatsSnapshot p) =
       poolStats.totalGets (Pool.stats p)
       - (poolStats.FastReturnHit (Pool.stats p) + poolStats.FastReturnMiss (Pool.stats p))
   \<and> (0 \<le> poolStats.currentCapacity (Pool.stats p) \<longrightarrow>
        poolStats.currentCapacity (Pool.stats p) < 2 ^ 63 \<longrightarrow>
        uint (ObjectsInUse (GetPoolStatsSnapshot p)) < 2 ^ 63 \<longrightarrow>
        AvailableObjects (GetPoolStatsSnapshot p) =
          poolStats.currentCapacity (Pool.stats p)
          - uint (ObjectsInUse (GetPoolStatsSnapshot p)))
   \<and> L1Length (GetPoolStatsSnapshot p) = len_chan (Pool.cacheL1 p)
   \<and> RingBufferLength (GetPoolStatsSnapshot p) = Length (Pool.pool p)
   \<and> (0 < uint (poolStats.FastReturnHit (Pool.stats p))
            + uint (poolStats.FastReturnMiss (Pool.stats p)) \<longrightarrow>
        uint (poolStats.FastReturnHit (Pool.stats p))
          + uint (poolStats.FastReturnMiss (Pool.stats p)) < 2 ^ 64 \<longrightarrow>
        L2SpillRate (GetPoolStatsSnapshot p) =
          fdiv (float64_of_uint64 (poolStats.FastReturnMiss (Pool.stats p)))
               (float64_of_uint64 (poolStats.FastReturnHit (Pool.stats p)
                                   + poolStats.FastReturnMiss (Pool.stats p))))
   \<and> (0 < uint (poolStats.FastReturnHit (Pool.stats p))
            + uint (poolStats.FastReturnMiss (Pool.stats p)) \<longrightarrow>
        uint (poolStats.FastReturnHit (Pool.stats p))
          + uint (poolStats.FastReturnMiss (Pool.stats p)) \<le> 2 ^ 53 \<longrightarrow>
        L2SpillRate (GetPoolStatsSnapshot p) =
          round64 (real_of_int (uint (poolStats.FastReturnMiss (Pool.stats p)))
                   / (real_of_int (uint (poolStats.FastReturnHit (Pool.stats p)))
                      + real_of_int (uint (poolStats.FastReturnMiss (Pool.stats p))))))"
proof -
  let ?s = "GetPoolStatsSnapshot p"
  let ?cap = "poolStats.currentCapacity (Pool.stats p)"
  let ?hit = "poolStats.FastReturnHit (Pool.stats p)"
  let ?miss = "poolStats.FastReturnMiss (Pool.stats p)"
  have a: "AvailableObjects ?s = int64 (?cap - int_of_uint64 (ObjectsInUse ?s))"
    by (simp add: GetPoolStatsSnapshot_def Let_def)
  have b: "ObjectsInUse ?s = poolStats.totalGets (Pool.stats p) - (?hit + ?miss)"
    by (simp add: GetPoolStatsSnapshot_def Let_def)
  have c: "AvailableObjects ?s = ?cap - uint (ObjectsInUse ?s)"
    if "0 \<le> ?cap" "?cap < 2 ^ 63" "uint (ObjectsInUse ?s) < 2 ^ 63"
  proof -
    have "0 \<le> uint (ObjectsInUse ?s)" by simp
    with that have "- (2 ^ 63) \<le> ?cap - uint (ObjectsInUse ?s)"
      and "?cap - uint (ObjectsInUse ?s) < 2 ^ 63" by linarith+
    then show ?thesis
      unfolding a using that(3) by (simp only: int_of_uint64_small int64_id)
  qed
  have d: "L1Length ?s = len_chan (Pool.cacheL1 p)"
    by (simp add: GetPoolStatsSnapshot_def Let_def)
  have e: "RingBufferLength ?s = Length (Pool.pool p)"
    by (simp add: GetPoolStatsSnapshot_def Let_def)
  have f: "L2SpillRate ?s = fdiv (float64_of_uint64 ?miss) (float64_of_uint64 (?hit + ?miss))"
    if "0 < uint ?hit + uint ?miss" "uint ?hit + uint ?miss < 2 ^ 64"
  proof -
    have u: "uint (?hit + ?miss) = uint ?hit + uint ?miss"
      using that(2) by (simp add: uint_add_lem [THEN iffD1])
    with that(1) have "?hit + ?miss \<noteq> 0" by (metis less_irrefl uint_0_iff)
    then have "0 < ?hit + ?miss" by (simp add: word_gt_0)
    then show ?thesis
      by (simp add: GetPoolStatsSnapshot_def Let_def)
  qed
  have g: "L2SpillRate ?s
             = round64 (real_of_int (uint ?miss) / (real_of_int (uint ?hit) + real_of_int (uint ?miss)))"
    if pos: "0 < uint ?hit + uint ?miss" and small: "uint ?hit + uint ?miss \<le> 2 ^ 53"
  proof -
    have "(2::int) ^ 53 < 2 ^ 64" by simp
    with small have lt: "uint ?hit + uint ?miss < 2 ^ 64" by linarith
    then have u: "uint (?hit + ?miss) = uint ?hit + uint ?miss"
      by (simp add: uint_add_lem [THEN iffD1])
    have "0 \<le> uint ?hit" by simp
    with small have m: "uint ?miss \<le> 2 ^ 53" by linarith
    from small u have t: "uint (?hit + ?miss) \<le> 2 ^ 53" by simp
    show ?thesis
      unfolding f [OF pos lt] fdiv_def float64_of_uint64_exact [OF m]
        float64_of_uint64_exact [OF t] u
      by (simp only: of_int_add)
  qed
  from a b c d e f g show ?thesis by blast
qed

theorem snapshot_derived_metrics_witness:
  "AvailableObjects (GetPoolStatsSnapshot returned_pool) = 9
   \<and> len_chan (Pool.cacheL1 returned_pool) + Length (Pool.pool returned_pool) = 3
   \<and> L2SpillRate (GetPoolStatsSnapshot returned_pool) = 1 / 4"
  using snapshot_derived_metrics [of returned_pool]
  by (simp add: GetPoolStatsSnapshot_def snapshot_pool_def returned_pool_def Let_def
        len_chan_def Length_def make_chan_def New_def round64_quarter)

text \<open>
  C7, as the spec has it, fails: a pool of capacity ten with an empty channel, three
  values in the ring buffer and nothing handed out reports ten available objects, not
  three.
\<close>

theorem available_objects_counterexample:
  "AvailableObjects (GetPoolStatsSnapshot snapshot_pool)
     \<noteq> len_chan (Pool.cacheL1 snapshot_pool) + Length (Pool.pool snapshot_pool)"
  by (simp add: GetPoolStatsSnapshot_def snapshot_pool_def Let_def int64_def int_of_uint64_def
        len_chan_def Length_def make_chan_def New_def)

text \<open>
  C8. \<open>Validate\<close> returns no error exactly when the returns (hits and misses) equal the
  gets, the gets equal the expected requests, no object is in use and the available
  objects equal the current capacity; it returns the snapshot as it was passed. The
  gets are compared with \<open>uint64(reqNum)\<close>, which for an expected count that is not
  negative is the comparison of the two numbers.
\<close>

theorem Validate_passes_iff:
  "(snd (Validate s reqNum) = None \<longleftrightarrow>
      PoolStatsSnapshot.FastReturnHit s + PoolStatsSnapshot.FastReturnMiss s = TotalGets s
      \<and> TotalGets s = uint64_of_int reqNum \<and> ObjectsInUse s = 0
      \<and> AvailableObjects s = CurrentCapacity s)
   \<and> fst (Validate s reqNum) = s
   \<and> (0 \<le> reqNum \<longrightarrow> reqNum < 2 ^ 63 \<longrightarrow>
        (TotalGets s = uint64_of_int reqNum \<longleftrightarrow> uint (TotalGets s) = reqNum))"
  using uint64_of_int_eq_iff [of reqNum "TotalGets s"]
  by (simp add: Validate_def Let_def)

theorem Validate_passes_iff_witness:
  "snd (Validate (GetPoolStatsSnapshot snapshot_pool) 0) = None
   \<and> (0::int) \<le> 0 \<and> (0::int) < 2 ^ 63
   \<and> uint (TotalGets (GetPoolStatsSnapshot snapshot_pool)) = 0
   \<and> snd (Validate (GetPoolStatsSnapshot returned_pool) 5) \<noteq> None"
  using Validate_passes_iff [of "GetPoolStatsSnapshot snapshot_pool" 0]
        Validate_passes_iff [of "GetPoolStatsSnapshot returned_pool" 5]
  by (simp add: GetPoolStatsSnapshot_def snapshot_pool_def returned_pool_def Let_def int64_def
        int_of_uint64_def uint64_of_int_def)

subsection \<open>Growth\<close>

lemma float_trunc_nonneg: "0 \<le> x \<Longrightarrow> float_trunc x = \<lfloor>x\<rfloor>"
  by (simp add: float_trunc_def)

lemma uint_word_of_int_id:
  "0 \<le> k \<Longrightarrow> k < 2 ^ 64 \<Longrightarrow> uint (word_of_int k :: uint64) = k"
  by (simp add: uint_word_of_int_eq take_bit_int_eq_self)

lemma uint_maxUint64: "uint (maxUint64 a b) = max (uint a) (uint b)"
  by (simp add: maxUint64_def word_less_def max_def)

lemma uint_add_in_range:
  "uint a + uint b < 2 ^ 64 \<Longrightarrow> uint (a + b :: uint64) = uint a + uint b"
  by (simp add: uint_add_lem [THEN iffD1])

text \<open>
  C1, as the code has it. Below the threshold the new capacity is the current one plus
  the larger of one and the truncated float64 product of the current capacity and the
  growth percentage: the product is rounded to the nearest float64 before it is
  truncated. At or above the threshold it is the current capacity plus the fixed step
  that the caller passes; with the step of the growth routine of the spec, the larger of
  one and the truncated float64 product of the current capacity and the fixed growth
  factor, that is the new capacity of linear mode, and \<open>proposedCapacity\<close> is the
  function called with that step. The sums are those of \<open>uint64\<close>; the numeric forms
  hold where they do not overflow.
\<close>

theorem calculateNewPoolCapacity_modes:
  "(currentCap < threshold \<longrightarrow>
      calculateNewPoolCapacity currentCap threshold fixedStep cfg =
        currentCap
        + maxUint64 (uint64_of_float64 (fmul (float64_of_uint64 currentCap) (growthPercent cfg))) 1)
   \<and> (currentCap < threshold \<longrightarrow> 0 < growthPercent cfg \<longrightarrow>
        uint currentCap + max 1 \<lfloor>fmul (float64_of_uint64 currentCap) (growthPercent cfg)\<rfloor> < 2 ^ 64 \<longrightarrow>
        uint (calculateNewPoolCapacity currentCap threshold fixedStep cfg) =
          uint currentCap + max 1 \<lfloor>fmul (float64_of_uint64 currentCap) (growthPercent cfg)\<rfloor>)
   \<and> (\<not> currentCap < threshold \<longrightarrow>
        calculateNewPoolCapacity currentCap threshold fixedStep cfg = currentCap + fixedStep)
   \<and> (\<not> currentCap < threshold \<longrightarrow> uint currentCap + uint fixedStep < 2 ^ 64 \<longrightarrow>
        uint (calculateNewPoolCapacity currentCap threshold fixedStep cfg) =
          uint currentCap + uint fixedStep)
   \<and> (\<not> currentCap < threshold \<longrightarrow> 0 < fixedGrowthFactor cfg \<longrightarrow>
        uint currentCap + max 1 \<lfloor>fmul (float64_of_uint64 currentCap) (fixedGrowthFactor cfg)\<rfloor> < 2 ^ 64 \<longrightarrow>
        uint (calculateNewPoolCapacity currentCap threshold
                (maxUint64 (uint64_of_float64
                              (fmul (float64_of_uint64 currentCap) (fixedGrowthFactor cfg))) 1) cfg) =
          uint currentCap + max 1 \<lfloor>fmul (float64_of_uint64 currentCap) (fixedGrowthFactor cfg)\<rfloor>)
   \<and> proposedCapacity p =
       calculateNewPoolCapacity (currentCapacity (stats p))
         (uint64_of_float64 (fmul (float64_of_int (initialCapacity (config p)))
                                  (exponentialThresholdFactor (growth (config p)))))
         (maxUint64 (uint64_of_float64
                       (fmul (float64_of_uint64 (currentCapacity (stats p)))
                             (fixedGrowthFactor (growth (config p))))) 1)
         (growth (config p))"
proof -
  have e: "calculateNewPoolCapacity currentCap threshold fixedStep cfg =
        currentCap
        + maxUint64 (uint64_of_float64 (fmul (float64_of_uint64 currentCap) (growthPercent cfg))) 1"
    if "currentCap < threshold"
    using that by (simp add: calculateNewPoolCapacity_def Let_def)
  have l: "calculateNewPoolCapacity currentCap threshold step cfg = currentCap + step"
    if "\<not> currentCap < threshold" for step
    using that by (simp add: calculateNewPoolCapacity_def Let_def)
  have m: "uint (currentCap + maxUint64 (uint64_of_float64 (fmul (float64_of_uint64 currentCap) g)) 1)
             = uint currentCap + max 1 \<lfloor>fmul (float64_of_uint64 currentCap) g\<rfloor>"
    if g: "0 < g"
      and r: "uint currentCap + max 1 \<lfloor>fmul (float64_of_uint64 currentCap) g\<rfloor> < 2 ^ 64" for g
  proof -
    let ?d = "\<lfloor>fmul (float64_of_uint64 currentCap) g\<rfloor>"
    from g have "0 \<le> g" by simp
    with float64_of_uint64_nonneg have nn: "0 \<le> fmul (float64_of_uint64 currentCap) g"
      by (rule fmul_nonneg)
    then have d0: "0 \<le> ?d" by simp
    have "0 \<le> uint currentCap" by simp
    with r have d64: "?d < 2 ^ 64" by linarith
    have "uint (uint64_of_float64 (fmul (float64_of_uint64 currentCap) g)) = ?d"
      unfolding uint64_of_float64_def float_trunc_nonneg [OF nn]
      using d0 d64 by (rule uint_word_of_int_id)
    then have "uint (maxUint64 (uint64_of_float64 (fmul (float64_of_uint64 currentCap) g)) 1)
        = max 1 ?d"
      by (simp add: uint_maxUint64 max.commute)
    with r show ?thesis by (simp add: uint_add_in_range)
  qed
  have en: "uint (calculateNewPoolCapacity currentCap threshold fixedStep cfg) =
          uint currentCap + max 1 \<lfloor>fmul (float64_of_uint64 currentCap) (growthPercent cfg)\<rfloor>"
    if "currentCap < threshold" "0 < growthPercent cfg"
      "uint currentCap + max 1 \<lfloor>fmul (float64_of_uint64 currentCap) (growthPercent cfg)\<rfloor> < 2 ^ 64"
    unfolding e [OF that(1)] using that(2,3) by (rule m)
  have ln: "uint (calculateNewPoolCapacity currentCap threshold fixedStep cfg) =
          uint currentCap + uint fixedStep"
    if "\<not> currentCap < threshold" "uint currentCap + uint fixedStep < 2 ^ 64"
    unfolding l [OF that(1)] using that(2) by (rule uint_add_in_range)
  have ls: "uint (calculateNewPoolCapacity currentCap threshold
                (maxUint64 (uint64_of_float64
                              (fmul (float64_of_uint64 currentCap) (fixedGrowthFactor cfg))) 1) cfg) =
          uint currentCap + max 1 \<lfloor>fmul (float64_of_uint64 currentCap) (fixedGrowthFactor cfg)\<rfloor>"
    if "\<not> currentCap < threshold" "0 < fixedGrowthFactor cfg"
      "uint currentCap + max 1 \<lfloor>fmul (float64_of_uint64 currentCap) (fixedGrowthFactor cfg)\<rfloor> < 2 ^ 64"
    unfolding l [OF that(1)] using that(2,3) by (rule m)
  have pc: "proposedCapacity p =
       calculateNewPoolCapacity (currentCapacity (stats p))
         (uint64_of_float64 (fmul (float64_of_int (initialCapacity (config p)))
                                  (exponentialThresholdFactor (growth (config p)))))
         (maxUint64 (uint64_of_float64
                       (fmul (float64_of_uint64 (currentCapacity (stats p)))
                             (fixedGrowthFactor (growth (config p))))) 1)
         (growth (config p))"
    by (simp add: proposedCapacity_def Let_def)
  from e l [of fixedStep] en ln ls pc show ?thesis by blast
qed

theorem calculateNewPoolCapacity_modes_witness:
  "(20 :: uint64) < 32 \<and> 0 < growthPercent growth_15_percent
   \<and> calculateNewPoolCapacity 20 32 8 growth_15_percent = 23
   \<and> \<not> (48 :: uint64) < 48 \<and> 0 < fixedGrowthFactor example_growth
   \<and> calculateNewPoolCapacity 48 48 12 example_growth = 60
   \<and> calculateNewPoolCapacity 48 48
        (maxUint64 (uint64_of_float64 (fmul (float64_of_uint64 48) (fixedGrowthFactor example_growth))) 1)
        example_growth = 96
   \<and> proposedCapacity linear_pool = 16"
  using calculateNewPoolCapacity_modes [of 20 32 8 growth_15_percent linear_pool]
        calculateNewPoolCapacity_modes [of 48 48 12 example_growth linear_pool]
  by code_simp

text \<open>
  C1, as the spec has it, fails: the code truncates the float64 product, not the
  product. A pool of capacity 20 below its threshold grows by 0.15, which a float64
  holds as \<open>5404319552844595 / 2 ^ 55\<close>, a little less than 0.15: twenty times that is less
  than three, with floor two, but is rounded to the float64 three, and the pool grows to
  23, not to 22. Read with the decimal fraction, the claim fails as well: a pool of
  capacity 100 that grows by 0.29, held as \<open>5224175567749775 / 2 ^ 54\<close>, grows to 128, not
  to \<open>100 + floor(100 * 0.29) = 129\<close>. And at a capacity of \<open>2 ^ 53 + 1\<close>, which no
  float64 holds, a growth percentage of one adds \<open>2 ^ 53\<close>, not \<open>2 ^ 53 + 1\<close>.
\<close>

theorem float_growth_counterexample:
  "round64 (15 / 100) = growthPercent growth_15_percent
   \<and> 0 < growthPercent growth_15_percent \<and> 0 < fixedGrowthFactor growth_15_percent
   \<and> (20 :: uint64) < 32
   \<and> uint (calculateNewPoolCapacity 20 32 8 growth_15_percent) = 23
   \<and> uint (20 :: uint64) + max 1 \<lfloor>real_of_int (uint (20 :: uint64)) * growthPercent growth_15_percent\<rfloor>
       = 22
   \<and> round64 (29 / 100) = growthPercent growth_29_percent
   \<and> (100 :: uint64) < 400
   \<and> uint (calculateNewPoolCapacity 100 400 8 growth_29_percent) = 128
   \<and> uint (100 :: uint64) + max 1 \<lfloor>real_of_int (uint (100 :: uint64)) * (29 / 100 :: real)\<rfloor> = 129
   \<and> (9007199254740993 :: uint64) < 18014398509481984
   \<and> uint (calculateNewPoolCapacity 9007199254740993 18014398509481984 8
              (example_growth\<lparr>growthPercent := 1\<rparr>)) = 18014398509481985
   \<and> uint (9007199254740993 :: uint64)
       + max 1 \<lfloor>real_of_int (uint (9007199254740993 :: uint64)) * (1 :: real)\<rfloor>
       = 18014398509481986"
  by code_simp

subsection \<open>The idle check\<close>

text \<open>
  C5, as the code has it. When the time since the last get is at least the idle
  threshold, the idle rounds go up by one, with no bound, and the permission is set
  once they have reached \<open>minIdleBeforeShrink\<close>; the function never clears the
  permission. Otherwise the rounds go down by one, stopping at zero, and the permission
  stays as it was.
\<close>

theorem IndleCheck_counts:
  "(time_Sub now (lastTimeCalledGet (stats p)) \<ge> idleThreshold (shrink (config p)) \<longrightarrow>
      - (2 ^ 63) \<le> idles \<longrightarrow> idles + 1 < 2 ^ 63 \<longrightarrow>
      IndleCheck now p idles permission =
        (idles + 1, permission \<or> idles + 1 \<ge> minIdleBeforeShrink (shrink (config p))))
   \<and> (\<not> time_Sub now (lastTimeCalledGet (stats p)) \<ge> idleThreshold (shrink (config p)) \<longrightarrow>
        0 \<le> idles \<longrightarrow> idles < 2 ^ 63 \<longrightarrow>
        IndleCheck now p idles permission = (max 0 (idles - 1), permission))"
proof -
  have a: "IndleCheck now p idles permission =
        (idles + 1, permission \<or> idles + 1 \<ge> minIdleBeforeShrink (shrink (config p)))"
    if "time_Sub now (lastTimeCalledGet (stats p)) \<ge> idleThreshold (shrink (config p))"
      "- (2 ^ 63) \<le> idles" "idles + 1 < 2 ^ 63"
  proof -
    from that(2,3) have "int64 (idles + 1) = idles + 1" by (intro int64_id) linarith+
    with that(1) show ?thesis by (auto simp: IndleCheck_def Let_def)
  qed
  have b: "IndleCheck now p idles permission = (max 0 (idles - 1), permission)"
    if "\<not> time_Sub now (lastTimeCalledGet (stats p)) \<ge> idleThreshold (shrink (config p))"
      "0 \<le> idles" "idles < 2 ^ 63"
  proof -
    from that(2,3) have "int64 (idles - 1) = idles - 1" if "0 < idles"
      using that by (intro int64_id) linarith+
    with that(1,2) show ?thesis by (auto simp: IndleCheck_def Let_def)
  qed
  from a b show ?thesis by blast
qed

theorem IndleCheck_counts_witness:
  "time_Sub 1000 (lastTimeCalledGet (stats example_pool)) \<ge> idleThreshold (shrink (config example_pool))
   \<and> IndleCheck 1000 example_pool 1 False = (2, True)
   \<and> \<not> time_Sub 50 (lastTimeCalledGet (stats example_pool)) \<ge> idleThreshold (shrink (config example_pool))
   \<and> IndleCheck 50 example_pool 1 True = (0, True)"
  using IndleCheck_counts [where now = 1000 and p = example_pool and idles = 1 and permission = False]
        IndleCheck_counts [where now = 50 and p = example_pool and idles = 1 and permission = True]
  by (simp add: example_pool_def example_stats_def example_config_def example_shrink_def time_Sub_def)

text \<open>
  C5, as the spec has it, fails: with two idle rounds required and two counted, another
  idle tick makes the counter three. It does not saturate at the bound.
\<close>

theorem idle_rounds_counterexample:
  "time_Sub 1000 (lastTimeCalledGet (stats example_pool)) \<ge> idleThreshold (shrink (config example_pool))
   \<and> minIdleBeforeShrink (shrink (config example_pool)) = 2
   \<and> fst (IndleCheck 1000 example_pool 2 True) = 3
   \<and> \<not> fst (IndleCheck 1000 example_pool 2 True) \<le> minIdleBeforeShrink (shrink (config example_pool))"
  by (simp add: IndleCheck_def Let_def int64_def example_pool_def example_stats_def
        example_config_def example_shrink_def time_Sub_def)

subsection \<open>Growth at the hard limit\<close>

lemma tryL1Resize_disabled:
  "\<not> enableChannelGrowth (fastPath (config p)) \<Longrightarrow> tryL1ResizeIfTriggered p = Inr p"
  by (simp add: tryL1ResizeIfTriggered_def Let_def)

lemma tryL1Resize_Inl:
  "tryL1ResizeIfTriggered p = Inl f \<Longrightarrow> enableChannelGrowth (fastPath (config p))"
  by (rule ccontr) (simp add: tryL1Resize_disabled)

lemma tryL1Resize_frame:
  "tryL1ResizeIfTriggered p = Inr p2 \<Longrightarrow>
     currentCapacity (stats p2) = currentCapacity (stats p) \<and> pool p2 = pool p
     \<and> config p2 = config p \<and> isGrowthBlocked p2 = isGrowthBlocked p"
  by (auto simp: tryL1ResizeIfTriggered_def Let_def split: if_splits sum.splits)

lemma tryL1Resize_empty:
  "chan_buf (cacheL1 p) = [] \<Longrightarrow> \<exists>p2. tryL1ResizeIfTriggered p = Inr p2"
  by (simp add: tryL1ResizeIfTriggered_def Let_def)

lemma grow_fails:
  "growthWouldExceedHardLimit p (proposedCapacity p) \<Longrightarrow>
     grow now p = Inr (p\<lparr>isGrowthBlocked := True\<rparr>, False)"
  by (simp add: grow_def Let_def)

lemma grow_not_failing:
  assumes "\<not> growthWouldExceedHardLimit p (proposedCapacity p)"
  shows "case grow now p of
           Inl f \<Rightarrow> enableChannelGrowth (fastPath (config p))
         | Inr (p', grown) \<Rightarrow>
             grown \<and> currentCapacity (stats p') =
               (if needsToShrinkToHardLimit p (currentCapacity (stats p)) (proposedCapacity p)
                then uint64_of_int (hardLimit (config p)) else proposedCapacity p)"
proof -
  let ?newCapacity = "if needsToShrinkToHardLimit p (currentCapacity (stats p)) (proposedCapacity p)
                then uint64_of_int (hardLimit (config p)) else proposedCapacity p"
  let ?delta = "uint (?newCapacity - currentCapacity (stats p))"
  let ?amount = "if 0 < allocAmount (config p) \<and> allocAmount (config p) < ?delta
                            then allocAmount (config p) else ?delta"
  let ?p1 = "p\<lparr>pool := fst (WriteMany ((pool p)\<lparr>rb_size := max (rb_size (pool p)) (unat ?newCapacity)\<rparr>)
                            (map (allocator p) [created p ..< created p + nat ?amount])),
                         created := created p + nat ?amount,
                         stats := (stats p)\<lparr>currentCapacity := ?newCapacity\<rparr>\<rparr>"
  have g: "grow now p = (case tryL1ResizeIfTriggered ?p1 of
                   Inl f \<Rightarrow> Inl f
                 | Inr p2 \<Rightarrow>
                     Inr (p2\<lparr>stats := (stats p2)\<lparr>totalGrowthEvents := totalGrowthEvents (stats p2) + 1,
                                                   lastGrowTime := now\<rparr>\<rparr>, True))"
    using assms by (simp add: grow_def Let_def)
  show ?thesis
  proof (cases "tryL1ResizeIfTriggered ?p1")
    case (Inl f)
    from tryL1Resize_Inl [OF this] have "enableChannelGrowth (fastPath (config p))" by simp
    with Inl g show ?thesis by simp
  next
    case (Inr p2)
    from tryL1Resize_frame [OF this] have "currentCapacity (stats p2) = ?newCapacity" by simp
    with Inr g show ?thesis by simp
  qed
qed

lemma grow_returns:
  assumes "\<not> growthWouldExceedHardLimit p (proposedCapacity p)"
    and "\<not> enableChannelGrowth (fastPath (config p)) \<or> chan_buf (cacheL1 p) = []"
  shows "\<exists>q. grow now p = Inr q"
proof -
  let ?newCapacity = "if needsToShrinkToHardLimit p (currentCapacity (stats p)) (proposedCapacity p)
                then uint64_of_int (hardLimit (config p)) else proposedCapacity p"
  let ?delta = "uint (?newCapacity - currentCapacity (stats p))"
  let ?amount = "if 0 < allocAmount (config p) \<and> allocAmount (config p) < ?delta
                            then allocAmount (config p) else ?delta"
  let ?p1 = "p\<lparr>pool := fst (WriteMany ((pool p)\<lparr>rb_size := max (rb_size (pool p)) (unat ?newCapacity)\<rparr>)
                            (map (allocator p) [created p ..< created p + nat ?amount])),
                         created := created p + nat ?amount,
                         stats := (stats p)\<lparr>currentCapacity := ?newCapacity\<rparr>\<rparr>"
  have g: "grow now p = (case tryL1ResizeIfTriggered ?p1 of
                   Inl f \<Rightarrow> Inl f
                 | Inr p2 \<Rightarrow>
                     Inr (p2\<lparr>stats := (stats p2)\<lparr>totalGrowthEvents := totalGrowthEvents (stats p2) + 1,
                                                   lastGrowTime := now\<rparr>\<rparr>, True))"
    using assms(1) by (simp add: grow_def Let_def)
  from assms(2) have "\<exists>p2. tryL1ResizeIfTriggered ?p1 = Inr p2"
  proof
    assume "\<not> enableChannelGrowth (fastPath (config p))"
    then have "tryL1ResizeIfTriggered ?p1 = Inr ?p1" by (intro tryL1Resize_disabled) simp
    then show ?thesis by blast
  next
    assume "chan_buf (cacheL1 p) = []"
    then show ?thesis by (intro tryL1Resize_empty) simp
  qed
  then obtain p2 where "tryL1ResizeIfTriggered ?p1 = Inr p2" ..
  with g show ?thesis by auto
qed

text \<open>
  C2. Growth returns failure exactly when the proposed capacity exceeds the hard limit
  while the current capacity is at or above it, and then the pool is as before but for
  \<open>isGrowthBlocked\<close>, which is set. When the current capacity is below the hard limit
  and the proposed one above it, growth does not fail: it returns success with the
  capacity at the hard limit, the one other outcome being that the L1 resize, which runs
  only when channel growth is enabled, never returns; with channel growth disabled,
  or with L1 empty as it is when a get finds both tiers empty, growth returns success.
  The comparisons are those of the code, on \<open>uint64\<close>.
\<close>

theorem grow_fails_exactly_at_hard_limit:
  "((\<exists>p'. grow now p = Inr (p', False)) \<longleftrightarrow>
      proposedCapacity p > uint64_of_int (hardLimit (config p))
      \<and> currentCapacity (stats p) \<ge> uint64_of_int (hardLimit (config p)))
   \<and> (proposedCapacity p > uint64_of_int (hardLimit (config p))
        \<and> currentCapacity (stats p) \<ge> uint64_of_int (hardLimit (config p)) \<longrightarrow>
        grow now p = Inr (p\<lparr>isGrowthBlocked := True\<rparr>, False))
   \<and> (currentCapacity (stats p) < uint64_of_int (hardLimit (config p))
        \<and> proposedCapacity p > uint64_of_int (hardLimit (config p)) \<longrightarrow>
        (case grow now p of
           Inl f \<Rightarrow> enableChannelGrowth (fastPath (config p))
         | Inr (p', grown) \<Rightarrow>
             grown \<and> currentCapacity (stats p') = uint64_of_int (hardLimit (config p))))
   \<and> (currentCapacity (stats p) < uint64_of_int (hardLimit (config p))
        \<and> proposedCapacity p > uint64_of_int (hardLimit (config p))
        \<and> (\<not> enableChannelGrowth (fastPath (config p)) \<or> chan_buf (cacheL1 p) = []) \<longrightarrow>
        (\<exists>p'. grow now p = Inr (p', True)
              \<and> currentCapacity (stats p') = uint64_of_int (hardLimit (config p))))"
proof -
  let ?hl = "uint64_of_int (hardLimit (config p))"
  let ?fail = "proposedCapacity p > ?hl \<and> currentCapacity (stats p) \<ge> ?hl"
  have f: "growthWouldExceedHardLimit p (proposedCapacity p) \<longleftrightarrow> ?fail"
    by (simp add: growthWouldExceedHardLimit_def)
  have b: "grow now p = Inr (p\<lparr>isGrowthBlocked := True\<rparr>, False)" if "?fail"
    using that f grow_fails by blast
  have nf: "\<not> (\<exists>p'. grow now p = Inr (p', False))" if "\<not> ?fail"
  proof
    assume "\<exists>p'. grow now p = Inr (p', False)"
    then obtain p' where "grow now p = Inr (p', False)" ..
    moreover from that f have "\<not> growthWouldExceedHardLimit p (proposedCapacity p)" by simp
    ultimately show False using grow_not_failing [of p now] by simp
  qed
  have a: "(\<exists>p'. grow now p = Inr (p', False)) \<longleftrightarrow> ?fail"
    using b nf by blast
  have c: "case grow now p of
           Inl f \<Rightarrow> enableChannelGrowth (fastPath (config p))
         | Inr (p', grown) \<Rightarrow> grown \<and> currentCapacity (stats p') = ?hl"
    if "currentCapacity (stats p) < ?hl \<and> proposedCapacity p > ?hl"
  proof -
    from that have "\<not> ?fail" by auto
    with f have "\<not> growthWouldExceedHardLimit p (proposedCapacity p)" by simp
    from grow_not_failing [OF this, of now] that show ?thesis
      by (cases "grow now p") (auto simp: needsToShrinkToHardLimit_def)
  qed
  have d: "\<exists>p'. grow now p = Inr (p', True) \<and> currentCapacity (stats p') = ?hl"
    if "currentCapacity (stats p) < ?hl \<and> proposedCapacity p > ?hl
        \<and> (\<not> enableChannelGrowth (fastPath (config p)) \<or> chan_buf (cacheL1 p) = [])"
  proof -
    from that c have r: "case grow now p of
           Inl f \<Rightarrow> enableChannelGrowth (fastPath (config p))
         | Inr (p', grown) \<Rightarrow> grown \<and> currentCapacity (stats p') = ?hl" by blast
    from that have "\<not> ?fail" by auto
    with f have "\<not> growthWouldExceedHardLimit p (proposedCapacity p)" by simp
    moreover from that
    have "\<not> enableChannelGrowth (fastPath (config p)) \<or> chan_buf (cacheL1 p) = []" by blast
    ultimately have "\<exists>q. grow now p = Inr q" by (rule grow_returns)
    with r show ?thesis by (cases "grow now p") auto
  qed
  from a b c d show ?thesis by blast
qed

theorem grow_fails_exactly_at_hard_limit_witness:
  "grow 0 at_limit_pool = Inr (at_limit_pool\<lparr>isGrowthBlocked := True\<rparr>, False)
   \<and> currentCapacity (stats near_limit_pool) < uint64_of_int (hardLimit (config near_limit_pool))
   \<and> proposedCapacity near_limit_pool > uint64_of_int (hardLimit (config near_limit_pool))
   \<and> \<not> enableChannelGrowth (fastPath (config near_limit_pool))
   \<and> (\<exists>p'. grow 0 near_limit_pool = Inr (p', True) \<and> currentCapacity (stats p') = 16)"
proof -
  have a: "proposedCapacity at_limit_pool = 24"
    by code_simp
  have n: "proposedCapacity near_limit_pool = 18"
    by code_simp
  have c: "currentCapacity (stats at_limit_pool) = 16" "hardLimit (config at_limit_pool) = 16"
    "currentCapacity (stats near_limit_pool) = 12" "hardLimit (config near_limit_pool) = 16"
    "\<not> enableChannelGrowth (fastPath (config near_limit_pool))"
    by (simp_all add: at_limit_pool_def near_limit_pool_def example_pool_def example_stats_def
          example_config_def)
  from grow_fails_exactly_at_hard_limit [of 0 at_limit_pool]
       grow_fails_exactly_at_hard_limit [of 0 near_limit_pool]
  show ?thesis
    by (simp add: a n c uint64_of_int_def)
qed

subsection \<open>The channel when its growth is disabled\<close>

lemma performShrink_frame:
  "cacheL1 (performShrink now p newCapacity inUse currentCap) = cacheL1 p
   \<and> config (performShrink now p newCapacity inUse currentCap) = config p
   \<and> currentL1Capacity (stats (performShrink now p newCapacity inUse currentCap))
       = currentL1Capacity (stats p)"
  by (simp add: performShrink_def Let_def split: prod.split sum.split)

lemma adjustMainShrinkTarget_frame:
  "cacheL1 (snd (adjustMainShrinkTarget p newCap inUse)) = cacheL1 p
   \<and> config (snd (adjustMainShrinkTarget p newCap inUse)) = config p
   \<and> stats (snd (adjustMainShrinkTarget p newCap inUse)) = stats p
   \<and> pool (snd (adjustMainShrinkTarget p newCap inUse)) = pool p"
  by (simp add: adjustMainShrinkTarget_def Let_def)

lemma ShrinkExecution_channel_growth_disabled:
  assumes "\<not> enableChannelGrowth (fastPath (config p))"
  shows "\<exists>p'. ShrinkExecution now p = Inr p' \<and> cacheL1 p' = cacheL1 p
           \<and> currentL1Capacity (stats p') = currentL1Capacity (stats p)"
proof -
  let ?currentCap = "currentCapacity (stats p)"
  let ?inUse = "int_of_uint64 (objectsInUse (stats p))"
  let ?newCapacity = "int_of_float64
                          (fmul (float64_of_uint64 ?currentCap) (fsub 1 (shrinkPercent (shrink (config p)))))"
  show ?thesis
  proof (cases "shouldShrinkMainPool p ?currentCap ?newCapacity ?inUse")
    case False
    then have "ShrinkExecution now p = Inr p" by (simp add: ShrinkExecution_def Let_def)
    then show ?thesis by simp
  next
    case True
    obtain n p1 where a: "adjustMainShrinkTarget p ?newCapacity ?inUse = (n, p1)"
      by (cases "adjustMainShrinkTarget p ?newCapacity ?inUse")
    with adjustMainShrinkTarget_frame [of p ?newCapacity ?inUse]
    have p1: "cacheL1 p1 = cacheL1 p" "config p1 = config p" "stats p1 = stats p" by simp_all
    let ?p2 = "performShrink now p1 n ?inUse ?currentCap"
    from performShrink_frame [of now p1 n ?inUse ?currentCap] p1
    have p2: "cacheL1 ?p2 = cacheL1 p" "config ?p2 = config p"
      "currentL1Capacity (stats ?p2) = currentL1Capacity (stats p)" by simp_all
    from True a assms p2(2) have "ShrinkExecution now p = Inr ?p2"
      by (simp add: ShrinkExecution_def Let_def)
    with p2 show ?thesis by simp
  qed
qed

lemma moveItems_chan_cap:
  "moveItems items l1 l2 result = (l1', l2', result') \<Longrightarrow> chan_cap l1' = chan_cap l1"
  by (induction items arbitrary: l1 l2 result)
     (auto simp: try_send_def split: option.splits if_splits)

lemma refillMove_frame:
  "refillMove p fillTarget result = (p', result') \<Longrightarrow>
     chan_cap (cacheL1 p') = chan_cap (cacheL1 p) \<and> stats p' = stats p \<and> config p' = config p"
  by (auto simp: refillMove_def Let_def split: prod.splits if_splits dest: moveItems_chan_cap)

lemma Write_size: "rb_size (fst (Write r x)) = rb_size r"
  by (simp add: Write_def)

lemma WriteMany_size: "rb_size (fst (WriteMany r xs)) = rb_size r"
proof (induction xs arbitrary: r)
  case Nil
  then show ?case by simp
next
  case (Cons x xs)
  obtain r' e where w: "Write r x = (r', e)" by (cases "Write r x")
  with Write_size [of r x] have s: "rb_size r' = rb_size r" by simp
  show ?case
  proof (cases e)
    case None
    obtain r'' n e' where "WriteMany r' xs = (r'', n, e')" by (cases "WriteMany r' xs")
    with Cons.IH [of r'] w None s show ?thesis by simp
  next
    case (Some err)
    with w s show ?thesis by simp
  qed
qed

lemma grow_channel_growth_disabled:
  assumes "\<not> enableChannelGrowth (fastPath (config p))"
  shows "\<exists>p' grown. grow now p = Inr (p', grown) \<and> cacheL1 p' = cacheL1 p
           \<and> currentL1Capacity (stats p') = currentL1Capacity (stats p)"
proof (cases "growthWouldExceedHardLimit p (proposedCapacity p)")
  case True
  then show ?thesis by (auto simp: grow_def Let_def)
next
  case False
  with assms show ?thesis by (auto simp: grow_def Let_def tryL1Resize_disabled)
qed


text \<open>
  C9. With \<open>enableChannelGrowth\<close> false the growth-coupled L1 resize returns at once
  and the shrink execution returns before its fast-path part: shrink execution and
  growth leave the channel and the recorded L1 capacity as they were, and a refill,
  which only sends into the channel, leaves its capacity as it was. Growth itself is
  not held back: unless the hard limit forbids it, it returns success with the current
  capacity raised to the proposed one (or to the hard limit) and the ring buffer's
  capacity at least that.
\<close>

theorem channel_growth_disabled_keeps_L1:
  assumes "\<not> enableChannelGrowth (fastPath (config p))"
  shows "tryL1ResizeIfTriggered p = Inr p
   \<and> (\<exists>p'. ShrinkExecution now p = Inr p' \<and> cacheL1 p' = cacheL1 p
             \<and> currentL1Capacity (stats p') = currentL1Capacity (stats p))
   \<and> (\<exists>p' grown. grow now p = Inr (p', grown) \<and> cacheL1 p' = cacheL1 p
             \<and> currentL1Capacity (stats p') = currentL1Capacity (stats p))
   \<and> (\<exists>p' result. refill grow now p fillTarget = Inr (p', result)
             \<and> chan_cap (cacheL1 p') = chan_cap (cacheL1 p)
             \<and> currentL1Capacity (stats p') = currentL1Capacity (stats p))
   \<and> (\<not> growthWouldExceedHardLimit p (proposedCapacity p) \<longrightarrow>
        (\<exists>p'. grow now p = Inr (p', True)
              \<and> currentCapacity (stats p') =
                  (if needsToShrinkToHardLimit p (currentCapacity (stats p)) (proposedCapacity p)
                   then uint64_of_int (hardLimit (config p)) else proposedCapacity p)
              \<and> unat (currentCapacity (stats p')) \<le> rb_size (pool p')))"
proof -
  note g = grow_channel_growth_disabled [OF assms, of now]
  have r: "\<exists>p' result. refill grow now p fillTarget = Inr (p', result)
             \<and> chan_cap (cacheL1 p') = chan_cap (cacheL1 p)
             \<and> currentL1Capacity (stats p') = currentL1Capacity (stats p)"
  proof -
    from g obtain p1 grown where p1: "grow now p = Inr (p1, grown)" "cacheL1 p1 = cacheL1 p"
      "currentL1Capacity (stats p1) = currentL1Capacity (stats p)" by blast
    obtain q1 r1 where m1: "refillMove p1 fillTarget (zeroRefillResult\<lparr>GrowthNeeded := True\<rparr>) = (q1, r1)"
      by (cases "refillMove p1 fillTarget (zeroRefillResult\<lparr>GrowthNeeded := True\<rparr>)")
    obtain q0 r0 where m0: "refillMove p fillTarget zeroRefillResult = (q0, r0)"
      by (cases "refillMove p fillTarget zeroRefillResult")
    from refillMove_frame [OF m1] refillMove_frame [OF m0] p1 m1 m0 show ?thesis
      by (auto simp: refill_def Let_def)
  qed
  have l2: "\<exists>p'. grow now p = Inr (p', True)
              \<and> currentCapacity (stats p') =
                  (if needsToShrinkToHardLimit p (currentCapacity (stats p)) (proposedCapacity p)
                   then uint64_of_int (hardLimit (config p)) else proposedCapacity p)
              \<and> unat (currentCapacity (stats p')) \<le> rb_size (pool p')"
    if "\<not> growthWouldExceedHardLimit p (proposedCapacity p)"
    using that assms by (simp add: grow_def Let_def tryL1Resize_disabled WriteMany_size)
  from tryL1Resize_disabled [OF assms] ShrinkExecution_channel_growth_disabled [OF assms, of now]
    g r l2
  show ?thesis by blast
qed

theorem channel_growth_disabled_keeps_L1_witness:
  "\<not> enableChannelGrowth (fastPath (config example_pool))
   \<and> tryL1ResizeIfTriggered example_pool = Inr example_pool
   \<and> currentCapacity (stats example_pool) = 8
   \<and> (\<exists>p'. grow 0 example_pool = Inr (p', True) \<and> currentCapacity (stats p') = 12
             \<and> 12 \<le> rb_size (pool p') \<and> cacheL1 p' = cacheL1 example_pool)"
proof -
  have n: "proposedCapacity example_pool = 12"
    by code_simp
  have c: "\<not> enableChannelGrowth (fastPath (config example_pool))"
    "currentCapacity (stats example_pool) = 8" "hardLimit (config example_pool) = 16"
    by (simp_all add: example_pool_def example_stats_def example_config_def)
  have x: "\<not> growthWouldExceedHardLimit example_pool (proposedCapacity example_pool)"
    "\<not> needsToShrinkToHardLimit example_pool (currentCapacity (stats example_pool))
         (proposedCapacity example_pool)"
    by (simp_all add: growthWouldExceedHardLimit_def needsToShrinkToHardLimit_def n c
          uint64_of_int_def)
  from channel_growth_disabled_keeps_L1 [OF c(1), of 0 0] x n c
  show ?thesis by auto
qed

subsection \<open>Shrinking\<close>

lemma WriteMany_fits:
  "length (rb_items r) + length xs \<le> rb_size r \<Longrightarrow>
     WriteMany r xs = (r\<lparr>rb_items := rb_items r @ xs\<rparr>, int (length xs), None)"
proof (induction xs arbitrary: r)
  case Nil
  then show ?case by simp
next
  case (Cons x xs)
  let ?r' = "r\<lparr>rb_items := rb_items r @ [x]\<rparr>"
  from Cons.prems have w: "Write r x = (?r', None)" by (simp add: Write_def)
  from Cons.prems have "length (rb_items ?r') + length xs \<le> rb_size ?r'" by simp
  from Cons.IH [OF this] w show ?case by simp
qed

lemma GetN_some:
  "0 < n \<Longrightarrow> rb_items r \<noteq> [] \<Longrightarrow>
     GetN r n = (r\<lparr>rb_items := drop (nat n) (rb_items r)\<rparr>, Some (take (nat n) (rb_items r)), None)"
  by (simp add: GetN_def)

lemma performShrink_replaces:
  assumes keep: "0 < newCapacity - inUse" and inUse: "0 \<le> inUse" and cap: "newCapacity < 2 ^ 63"
  shows "performShrink now p newCapacity inUse currentCap =
     p\<lparr>pool := (CopyConfig (New newCapacity) (pool p))
                 \<lparr>rb_items := take (nat (min (newCapacity - inUse) (Length (pool p))))
                                 (rb_items (pool p))\<rparr>,
       stats := (stats p)\<lparr>currentCapacity := uint64_of_int newCapacity,
                          totalShrinkEvents := totalShrinkEvents (stats p) + 1,
                          lastShrinkTime := now,
                          consecutiveShrinks := consecutiveShrinks (stats p) + 1\<rparr>\<rparr>"
proof -
  let ?keep = "newCapacity - inUse"
  let ?k = "min ?keep (Length (pool p))"
  let ?new = "CopyConfig (New newCapacity) (pool p)"
  from keep inUse cap have k64: "int64 ?keep = ?keep" by (intro int64_id) linarith+
  show ?thesis
  proof (cases "rb_items (pool p) = []")
    case True
    then have "?k = 0" using keep by (simp add: Length_def)
    with True keep k64 show ?thesis
      by (simp add: performShrink_def Let_def ClearRemaining_def CopyConfig_def New_def Length_def)
  next
    case False
    then have kpos: "0 < ?k" using keep by (simp add: Length_def)
    have "length (take (nat ?k) (rb_items (pool p))) \<le> nat newCapacity"
      using inUse keep by simp
    then have "length (rb_items ?new) + length (take (nat ?k) (rb_items (pool p))) \<le> rb_size ?new"
      by (simp add: CopyConfig_def New_def)
    from WriteMany_fits [OF this]
    have w: "WriteMany ?new (take (nat ?k) (rb_items (pool p))) =
      (?new\<lparr>rb_items := take (nat ?k) (rb_items (pool p))\<rparr>,
       int (length (take (nat ?k) (rb_items (pool p)))), None)"
      by (simp add: CopyConfig_def New_def)
    from kpos keep k64 GetN_some [OF kpos False] w show ?thesis
      by (simp add: performShrink_def Let_def ClearRemaining_def)
  qed
qed

text \<open>
  C4, as the code has it. \<open>performShrink\<close> with \<open>keep = newCapacity - inUse\<close>: if \<open>keep\<close>
  is not positive the pool is returned as it was, the old L2 in place. Otherwise the
  first \<open>min keep (Length L2)\<close> values of the old L2 become the contents of a new L2 of
  capacity \<open>newCapacity\<close> that carries the old one's configuration, the values left in
  the old L2 go with it, the current capacity is \<open>newCapacity\<close>, the shrink events and
  the consecutive shrinks are one more, and the last shrink time is the clock's
  reading. The cleaner is called on no value: the log of cleaned values is the same
  after every call.
\<close>

theorem performShrink_effect:
  "(newCapacity - inUse \<le> 0 \<longrightarrow> - (2 ^ 63) \<le> newCapacity - inUse \<longrightarrow>
      performShrink now p newCapacity inUse currentCap = p)
   \<and> (0 < newCapacity - inUse \<longrightarrow> 0 \<le> inUse \<longrightarrow> newCapacity < 2 ^ 63 \<longrightarrow>
        performShrink now p newCapacity inUse currentCap =
          p\<lparr>pool := (CopyConfig (New newCapacity) (pool p))
                      \<lparr>rb_items := take (nat (min (newCapacity - inUse) (Length (pool p))))
                                      (rb_items (pool p))\<rparr>,
            stats := (stats p)\<lparr>currentCapacity := uint64_of_int newCapacity,
                               totalShrinkEvents := totalShrinkEvents (stats p) + 1,
                               lastShrinkTime := now,
                               consecutiveShrinks := consecutiveShrinks (stats p) + 1\<rparr>\<rparr>
        \<and> rb_size (pool (performShrink now p newCapacity inUse currentCap)) = nat newCapacity
        \<and> length (rb_items (pool (performShrink now p newCapacity inUse currentCap)))
            = nat (min (newCapacity - inUse) (Length (pool p))))
   \<and> cleaned (performShrink now p newCapacity inUse currentCap) = cleaned p"
proof -
  have a: "performShrink now p newCapacity inUse currentCap = p"
    if "newCapacity - inUse \<le> 0" "- (2 ^ 63) \<le> newCapacity - inUse"
  proof -
    have "(0::int) < 2 ^ 63" by simp
    with that have "int64 (newCapacity - inUse) = newCapacity - inUse"
      by (intro int64_id) linarith+
    with that(1) show ?thesis by (simp add: performShrink_def Let_def)
  qed
  have b: "rb_size (pool (performShrink now p newCapacity inUse currentCap)) = nat newCapacity
        \<and> length (rb_items (pool (performShrink now p newCapacity inUse currentCap)))
            = nat (min (newCapacity - inUse) (Length (pool p)))"
    if "0 < newCapacity - inUse" "0 \<le> inUse" "newCapacity < 2 ^ 63"
    unfolding performShrink_replaces [OF that]
    by (auto simp: CopyConfig_def New_def Length_def min_def)
  have c: "cleaned (performShrink now p newCapacity inUse currentCap) = cleaned p"
    by (simp add: performShrink_def Let_def split: prod.split sum.split)
  from a b c performShrink_replaces [of newCapacity inUse now p currentCap]
  show ?thesis by blast
qed

theorem performShrink_effect_witness:
  "performShrink 7 example_pool 2 2 8 = example_pool
   \<and> rb_items (pool (performShrink 7 example_pool 4 2 8)) = [2, 3]
   \<and> rb_size (pool (performShrink 7 example_pool 4 2 8)) = 4
   \<and> cleaned (performShrink 7 example_pool 4 2 8) = cleaned example_pool
   \<and> currentCapacity (stats (performShrink 7 example_pool 4 2 8)) = 4
   \<and> totalShrinkEvents (stats (performShrink 7 example_pool 4 2 8)) = 1
   \<and> consecutiveShrinks (stats (performShrink 7 example_pool 4 2 8)) = 1
   \<and> lastShrinkTime (stats (performShrink 7 example_pool 4 2 8)) = 7"
  using performShrink_effect [where now = 7 and p = example_pool and newCapacity = 2
          and inUse = 2 and currentCap = 8]
        performShrink_effect [where now = 7 and p = example_pool and newCapacity = 4
          and inUse = 2 and currentCap = 8]
  by (simp add: example_pool_def example_stats_def New_def CopyConfig_def Length_def
        uint64_of_int_def)

text \<open>
  C4, as the spec has it, fails: of the four values in the ring buffer of the example
  pool, a shrink to capacity four with two values handed out keeps two, and the other
  two, 4 and 5, are in neither tier afterwards, but the cleaner has been called on no
  value.
\<close>

theorem excess_not_cleaned_counterexample:
  "0 < (4 :: int) - 2
   \<and> rb_items (pool example_pool) = [2, 3, 4, 5]
   \<and> chan_buf (cacheL1 (performShrink 7 example_pool 4 2 8)) = [0, 1]
   \<and> rb_items (pool (performShrink 7 example_pool 4 2 8)) = [2, 3]
   \<and> cleaned example_pool = []
   \<and> cleaned (performShrink 7 example_pool 4 2 8) = []"
  by code_simp













subsection \<open>Refilling the channel\<close>

lemma moveItems_tiers:
  assumes "length (rb_items l2) + length items \<le> rb_size l2"
  shows "fst (moveItems items l1 l2 result) =
           l1\<lparr>chan_buf := chan_buf l1 @ take (chan_cap l1 - length (chan_buf l1)) items\<rparr>
       \<and> fst (snd (moveItems items l1 l2 result)) =
           l2\<lparr>rb_items := rb_items l2 @ drop (chan_cap l1 - length (chan_buf l1)) items\<rparr>"
  using assms
proof (induction items arbitrary: l1 l2 result)
  case Nil
  then show ?case by simp
next
  case (Cons item items)
  show ?case
  proof (cases "length (chan_buf l1) < chan_cap l1")
    case True
    let ?l1 = "l1\<lparr>chan_buf := chan_buf l1 @ [item]\<rparr>"
    from True have s: "try_send l1 item = Some ?l1" by (simp add: try_send_def)
    from True obtain m where m: "chan_cap l1 - length (chan_buf l1) = Suc m"
      by (cases "chan_cap l1 - length (chan_buf l1)") auto
    then have m': "chan_cap l1 - Suc (length (chan_buf l1)) = m" by simp
    from Cons.prems have "length (rb_items l2) + length items \<le> rb_size l2" by simp
    from Cons.IH [OF this, of ?l1 "result\<lparr>ItemsMoved := int64 (ItemsMoved result + 1)\<rparr>"]
    show ?thesis by (simp add: s m m')
  next
    case False
    let ?l2 = "l2\<lparr>rb_items := rb_items l2 @ [item]\<rparr>"
    from False have s: "try_send l1 item = None" by (simp add: try_send_def)
    from False have m: "chan_cap l1 - length (chan_buf l1) = 0" by simp
    from Cons.prems have w: "Write l2 item = (?l2, None)" by (simp add: Write_def)
    from Cons.prems have "length (rb_items ?l2) + length items \<le> rb_size ?l2" by simp
    from Cons.IH [OF this, of l1 "result\<lparr>ItemsFailed := int64 (ItemsFailed result + 1)\<rparr>"]
    show ?thesis by (simp add: s m w)
  qed
qed

lemma moveItems_counts:
  assumes "0 \<le> ItemsMoved result" "0 \<le> ItemsFailed result"
    and "ItemsMoved result + int (length items) < 2 ^ 63"
    and "ItemsFailed result + int (length items) < 2 ^ 63"
  shows "ItemsMoved (snd (snd (moveItems items l1 l2 result)))
           = ItemsMoved result + int (length (take (chan_cap l1 - length (chan_buf l1)) items))
       \<and> ItemsFailed (snd (snd (moveItems items l1 l2 result)))
           = ItemsFailed result + int (length (drop (chan_cap l1 - length (chan_buf l1)) items))
       \<and> GrowthNeeded (snd (snd (moveItems items l1 l2 result))) = GrowthNeeded result"
  using assms
proof (induction items arbitrary: l1 l2 result)
  case Nil
  then show ?case by simp
next
  case (Cons item items)
  have big: "- (2 ^ 63) \<le> (0::int)" by simp
  show ?case
  proof (cases "length (chan_buf l1) < chan_cap l1")
    case True
    let ?l1 = "l1\<lparr>chan_buf := chan_buf l1 @ [item]\<rparr>"
    let ?r = "result\<lparr>ItemsMoved := int64 (ItemsMoved result + 1)\<rparr>"
    from True have s: "try_send l1 item = Some ?l1" by (simp add: try_send_def)
    from True obtain m where m: "chan_cap l1 - length (chan_buf l1) = Suc m"
      by (cases "chan_cap l1 - length (chan_buf l1)") auto
    then have m': "chan_cap l1 - Suc (length (chan_buf l1)) = m" by simp
    have "ItemsMoved result + 1 \<le> ItemsMoved result + int (length (item # items))" by simp
    with Cons.prems(3) have "ItemsMoved result + 1 < 2 ^ 63" by linarith
    moreover from Cons.prems(1) big have "- (2 ^ 63) \<le> ItemsMoved result + 1" by linarith
    ultimately have i: "int64 (ItemsMoved result + 1) = ItemsMoved result + 1"
      by (intro int64_id)
    with Cons.prems have "0 \<le> ItemsMoved ?r" "0 \<le> ItemsFailed ?r"
      "ItemsMoved ?r + int (length items) < 2 ^ 63"
      "ItemsFailed ?r + int (length items) < 2 ^ 63" by simp_all
    from Cons.IH [OF this, of ?l1 l2] i show ?thesis by (simp add: s m m')
  next
    case False
    let ?r = "result\<lparr>ItemsFailed := int64 (ItemsFailed result + 1)\<rparr>"
    from False have s: "try_send l1 item = None" by (simp add: try_send_def)
    from False have m: "chan_cap l1 - length (chan_buf l1) = 0" by simp
    have "ItemsFailed result + 1 \<le> ItemsFailed result + int (length (item # items))" by simp
    with Cons.prems(4) have "ItemsFailed result + 1 < 2 ^ 63" by linarith
    moreover from Cons.prems(2) big have "- (2 ^ 63) \<le> ItemsFailed result + 1" by linarith
    ultimately have i: "int64 (ItemsFailed result + 1) = ItemsFailed result + 1"
      by (intro int64_id)
    with Cons.prems have "0 \<le> ItemsMoved ?r" "0 \<le> ItemsFailed ?r"
      "ItemsMoved ?r + int (length items) < 2 ^ 63"
      "ItemsFailed ?r + int (length items) < 2 ^ 63" by simp_all
    from Cons.IH [OF this, of l1 "fst (Write l2 item)"] i show ?thesis by (simp add: s m)
  qed
qed

lemma refillMove_nothing:
  "min fillTarget (Length (pool q)) \<le> 0 \<Longrightarrow>
     refillMove q fillTarget res = (q, res\<lparr>Reason := NoItemsToMove\<rparr>)"
  by (simp add: refillMove_def Let_def GetN_def)

lemma refillMove_moves:
  assumes wf: "length (rb_items (pool q)) \<le> rb_size (pool q)"
    and k: "0 < min fillTarget (Length (pool q))"
    and c: "ItemsMoved res = 0" "ItemsFailed res = 0" "Length (pool q) < 2 ^ 63"
  shows "chan_buf (cacheL1 (fst (refillMove q fillTarget res))) =
           chan_buf (cacheL1 q)
           @ take (chan_cap (cacheL1 q) - length (chan_buf (cacheL1 q)))
               (take (nat (min fillTarget (Length (pool q)))) (rb_items (pool q)))"
    and "rb_items (pool (fst (refillMove q fillTarget res))) =
           drop (nat (min fillTarget (Length (pool q)))) (rb_items (pool q))
           @ drop (chan_cap (cacheL1 q) - length (chan_buf (cacheL1 q)))
               (take (nat (min fillTarget (Length (pool q)))) (rb_items (pool q)))"
    and "Success (snd (refillMove q fillTarget res))"
    and "Reason (snd (refillMove q fillTarget res)) = RefillSucceeded"
    and "ItemsMoved (snd (refillMove q fillTarget res)) =
           int (length (take (chan_cap (cacheL1 q) - length (chan_buf (cacheL1 q)))
               (take (nat (min fillTarget (Length (pool q)))) (rb_items (pool q)))))"
    and "ItemsFailed (snd (refillMove q fillTarget res)) =
           int (length (drop (chan_cap (cacheL1 q) - length (chan_buf (cacheL1 q)))
               (take (nat (min fillTarget (Length (pool q)))) (rb_items (pool q)))))"
proof -
  let ?k = "min fillTarget (Length (pool q))"
  let ?items = "take (nat ?k) (rb_items (pool q))"
  let ?l2 = "(pool q)\<lparr>rb_items := drop (nat ?k) (rb_items (pool q))\<rparr>"
  let ?mv = "moveItems ?items (cacheL1 q) ?l2 res"
  from k have ne: "rb_items (pool q) \<noteq> []" by (auto simp: Length_def)
  have g: "GetN (pool q) ?k = (?l2, Some ?items, None)"
    using GetN_some [OF k ne] .
  have r: "refillMove q fillTarget res =
      (q\<lparr>cacheL1 := fst ?mv, pool := fst (snd ?mv)\<rparr>,
       (snd (snd ?mv))\<lparr>Success := True, Reason := RefillSucceeded\<rparr>)"
    by (simp add: refillMove_def Let_def g case_prod_beta)
  from wf have room: "length (rb_items ?l2) + length ?items \<le> rb_size ?l2" by simp
  note t = moveItems_tiers [OF room, of "cacheL1 q" res]
  have "int (length ?items) \<le> Length (pool q)" by (simp add: Length_def)
  with c(3) have "int (length ?items) < 2 ^ 63" by linarith
  with c(1,2) have "0 \<le> ItemsMoved res" "0 \<le> ItemsFailed res"
    "ItemsMoved res + int (length ?items) < 2 ^ 63"
    "ItemsFailed res + int (length ?items) < 2 ^ 63" by simp_all
  note n = moveItems_counts [OF this, of "cacheL1 q" ?l2]
  show "chan_buf (cacheL1 (fst (refillMove q fillTarget res))) =
           chan_buf (cacheL1 q)
           @ take (chan_cap (cacheL1 q) - length (chan_buf (cacheL1 q))) ?items"
    unfolding r using t by simp
  show "rb_items (pool (fst (refillMove q fillTarget res))) =
           drop (nat ?k) (rb_items (pool q))
           @ drop (chan_cap (cacheL1 q) - length (chan_buf (cacheL1 q))) ?items"
    unfolding r using t by simp
  show "Success (snd (refillMove q fillTarget res))" unfolding r by simp
  show "Reason (snd (refillMove q fillTarget res)) = RefillSucceeded" unfolding r by simp
  show "ItemsMoved (snd (refillMove q fillTarget res)) =
           int (length (take (chan_cap (cacheL1 q) - length (chan_buf (cacheL1 q))) ?items))"
    unfolding r using n c by simp
  show "ItemsFailed (snd (refillMove q fillTarget res)) =
           int (length (drop (chan_cap (cacheL1 q) - length (chan_buf (cacheL1 q))) ?items))"
    unfolding r using n c by simp
qed

text \<open>
  C6, as the code has it. A refill needs growth when L2 is empty or holds fewer values
  than the fill target. If it does and growth is blocked, the refill returns the
  \<open>GrowthBlocked\<close> result and the pool as it was. If it does and growth returns
  failure, the refill returns \<open>GrowthFailed\<close> and moves nothing. Otherwise, after the
  growth if there was one, the move step runs on the pool \<open>q\<close> so reached: nothing is
  read when \<open>min fillTarget (Length L2)\<close> is not positive; else exactly that many values
  are read from the head of L2, the first of them that find room in L1 are appended to
  L1, and the others are appended to L2 again, in order: none is dropped.
\<close>

theorem refill_protocol:
  "((Length (pool p) = 0 \<or> fillTarget > Length (pool p)) \<and> isGrowthBlocked p \<longrightarrow>
      refill growFn now p fillTarget =
        Inr (p, zeroRefillResult\<lparr>Reason := refill_reason.GrowthBlocked,
                                   RefillResult.GrowthBlocked := True\<rparr>))
   \<and> ((Length (pool p) = 0 \<or> fillTarget > Length (pool p)) \<and> \<not> isGrowthBlocked p
        \<and> growFn now p = Inr (p1, False) \<longrightarrow>
        refill growFn now p fillTarget = Inr (p1, zeroRefillResult\<lparr>Reason := GrowthFailed\<rparr>))
   \<and> ((Length (pool p) = 0 \<or> fillTarget > Length (pool p)) \<and> \<not> isGrowthBlocked p
        \<and> growFn now p = Inr (p1, True) \<longrightarrow>
        refill growFn now p fillTarget =
          Inr (refillMove p1 fillTarget (zeroRefillResult\<lparr>GrowthNeeded := True\<rparr>)))
   \<and> (\<not> (Length (pool p) = 0 \<or> fillTarget > Length (pool p)) \<longrightarrow>
        refill growFn now p fillTarget = Inr (refillMove p fillTarget zeroRefillResult))
   \<and> (min fillTarget (Length (pool q)) \<le> 0 \<longrightarrow>
        refillMove q fillTarget res = (q, res\<lparr>Reason := NoItemsToMove\<rparr>))
   \<and> (0 < min fillTarget (Length (pool q)) \<longrightarrow>
        length (rb_items (pool q)) \<le> rb_size (pool q) \<longrightarrow>
        Length (pool q) < 2 ^ 63 \<longrightarrow> ItemsMoved res = 0 \<longrightarrow> ItemsFailed res = 0 \<longrightarrow>
        (let toMove = nat (min fillTarget (Length (pool q)));
             items = take toMove (rb_items (pool q));
             room = chan_cap (cacheL1 q) - length (chan_buf (cacheL1 q));
             q' = fst (refillMove q fillTarget res);
             result = snd (refillMove q fillTarget res)
         in chan_buf (cacheL1 q') = chan_buf (cacheL1 q) @ take room items
          \<and> rb_items (pool q') = drop toMove (rb_items (pool q)) @ drop room items
          \<and> Success result \<and> Reason result = RefillSucceeded
          \<and> ItemsMoved result = int (length (take room items))
          \<and> ItemsFailed result = int (length (drop room items))))"
proof -
  let ?needs = "Length (pool p) = 0 \<or> fillTarget > Length (pool p)"
  have a: "refill growFn now p fillTarget =
        Inr (p, zeroRefillResult\<lparr>Reason := refill_reason.GrowthBlocked,
                                   RefillResult.GrowthBlocked := True\<rparr>)"
    if "?needs \<and> isGrowthBlocked p"
    using that by (auto simp: refill_def Let_def)
  have b: "refill growFn now p fillTarget = Inr (p1, zeroRefillResult\<lparr>Reason := GrowthFailed\<rparr>)"
    if "?needs \<and> \<not> isGrowthBlocked p \<and> growFn now p = Inr (p1, False)"
    using that by (auto simp: refill_def Let_def)
  have c: "refill growFn now p fillTarget =
          Inr (refillMove p1 fillTarget (zeroRefillResult\<lparr>GrowthNeeded := True\<rparr>))"
    if "?needs \<and> \<not> isGrowthBlocked p \<and> growFn now p = Inr (p1, True)"
    using that by (auto simp: refill_def Let_def)
  have d: "refill growFn now p fillTarget = Inr (refillMove p fillTarget zeroRefillResult)"
    if "\<not> ?needs"
    using that by (auto simp: refill_def Let_def)
  note e = refillMove_nothing [of fillTarget q res]
  note f = refillMove_moves [of q fillTarget res]
  from a b c d e f show ?thesis unfolding Let_def by blast
qed

lemma at_limit_pool_fields:
  "currentCapacity (stats at_limit_pool) = 16" "hardLimit (config at_limit_pool) = 16"
  "rb_items (pool at_limit_pool) = [2, 3, 4, 5]" "rb_size (pool at_limit_pool) = 16"
  "cacheL1 at_limit_pool = \<lparr>chan_buf = [0, 1], chan_cap = 4\<rparr>"
  "\<not> isGrowthBlocked at_limit_pool"
  by (simp_all add: at_limit_pool_def example_pool_def example_stats_def example_config_def
        New_def)

lemma at_limit_pool_grow:
  "grow now at_limit_pool = Inr (at_limit_pool\<lparr>isGrowthBlocked := True\<rparr>, False)"
proof -
  have "proposedCapacity at_limit_pool = 24"
    by code_simp
  then have "growthWouldExceedHardLimit at_limit_pool (proposedCapacity at_limit_pool)"
    by (simp add: growthWouldExceedHardLimit_def at_limit_pool_fields uint64_of_int_def)
  then show ?thesis by (rule grow_fails)
qed

theorem refill_protocol_witness:
  "refill grow 0 example_pool 3 = Inr (refillMove example_pool 3 zeroRefillResult)
   \<and> chan_buf (cacheL1 (fst (refillMove example_pool 3 zeroRefillResult))) = [0, 1, 2, 3]
   \<and> rb_items (pool (fst (refillMove example_pool 3 zeroRefillResult))) = [5, 4]
   \<and> ItemsMoved (snd (refillMove example_pool 3 zeroRefillResult)) = 2
   \<and> ItemsFailed (snd (refillMove example_pool 3 zeroRefillResult)) = 1
   \<and> refillMove example_pool 0 zeroRefillResult
       = (example_pool, zeroRefillResult\<lparr>Reason := NoItemsToMove\<rparr>)
   \<and> refill grow 0 at_limit_pool 6
       = Inr (at_limit_pool\<lparr>isGrowthBlocked := True\<rparr>, zeroRefillResult\<lparr>Reason := GrowthFailed\<rparr>)
   \<and> refill grow 0 (at_limit_pool\<lparr>isGrowthBlocked := True\<rparr>) 6
       = Inr (at_limit_pool\<lparr>isGrowthBlocked := True\<rparr>,
              zeroRefillResult\<lparr>Reason := refill_reason.GrowthBlocked,
                                RefillResult.GrowthBlocked := True\<rparr>)"
proof -
  have e: "rb_items (pool example_pool) = [2, 3, 4, 5]" "rb_size (pool example_pool) = 8"
    "cacheL1 example_pool = \<lparr>chan_buf = [0, 1], chan_cap = 4\<rparr>"
    by (simp_all add: example_pool_def New_def)
  have z: "ItemsMoved zeroRefillResult = 0" "ItemsFailed zeroRefillResult = 0"
    by (simp_all add: zeroRefillResult_def)
  have a: "refill grow 0 example_pool 3 = Inr (refillMove example_pool 3 zeroRefillResult)
   \<and> chan_buf (cacheL1 (fst (refillMove example_pool 3 zeroRefillResult))) = [0, 1, 2, 3]
   \<and> rb_items (pool (fst (refillMove example_pool 3 zeroRefillResult))) = [5, 4]
   \<and> ItemsMoved (snd (refillMove example_pool 3 zeroRefillResult)) = 2
   \<and> ItemsFailed (snd (refillMove example_pool 3 zeroRefillResult)) = 1"
    using refill_protocol [where growFn = grow and now = 0 and p = example_pool
            and ?p1.0 = example_pool and fillTarget = 3 and q = example_pool
            and res = zeroRefillResult]
    by (simp add: Let_def e z Length_def)
  have b: "refillMove example_pool 0 zeroRefillResult
       = (example_pool, zeroRefillResult\<lparr>Reason := NoItemsToMove\<rparr>)"
    using refill_protocol [where growFn = grow and now = 0 and p = example_pool
            and ?p1.0 = example_pool and q = example_pool and fillTarget = 0
            and res = zeroRefillResult]
    by (simp add: e Length_def)
  have c: "refill grow 0 at_limit_pool 6
       = Inr (at_limit_pool\<lparr>isGrowthBlocked := True\<rparr>, zeroRefillResult\<lparr>Reason := GrowthFailed\<rparr>)"
    using refill_protocol [where growFn = grow and now = 0 and p = at_limit_pool
            and fillTarget = 6 and ?p1.0 = "at_limit_pool\<lparr>isGrowthBlocked := True\<rparr>"
            and q = at_limit_pool and res = zeroRefillResult]
    by (simp add: at_limit_pool_fields at_limit_pool_grow Length_def)
  have d: "refill grow 0 (at_limit_pool\<lparr>isGrowthBlocked := True\<rparr>) 6
       = Inr (at_limit_pool\<lparr>isGrowthBlocked := True\<rparr>,
              zeroRefillResult\<lparr>Reason := refill_reason.GrowthBlocked,
                                RefillResult.GrowthBlocked := True\<rparr>)"
    using refill_protocol [where growFn = grow and now = 0
            and p = "at_limit_pool\<lparr>isGrowthBlocked := True\<rparr>" and fillTarget = 6
            and ?p1.0 = at_limit_pool and q = at_limit_pool and res = zeroRefillResult]
    by (simp add: at_limit_pool_fields Length_def)
  from a b c d show ?thesis by blast
qed

text \<open>
  C6, as the spec has it, fails. The pool at its hard limit of sixteen holds four values
  in L2 and two in an L1 of capacity four; growth is not blocked. A refill with a fill
  target of six triggers growth, growth fails, and the refill returns \<open>GrowthFailed\<close>
  with nothing read from L2 and nothing sent to L1, where the spec has it read
  \<open>min 6 4 = 4\<close> values.
\<close>

theorem refill_growth_failed_counterexample:
  "\<not> isGrowthBlocked at_limit_pool
   \<and> rb_items (pool at_limit_pool) = [2, 3, 4, 5]
   \<and> Length (pool at_limit_pool) < 6
   \<and> min 6 (Length (pool at_limit_pool)) = 4
   \<and> cacheL1 at_limit_pool = \<lparr>chan_buf = [0, 1], chan_cap = 4\<rparr>
   \<and> refill grow 0 at_limit_pool 6
       = Inr (at_limit_pool\<lparr>isGrowthBlocked := True\<rparr>, zeroRefillResult\<lparr>Reason := GrowthFailed\<rparr>)
   \<and> ItemsMoved (zeroRefillResult\<lparr>Reason := GrowthFailed\<rparr>) = 0
   \<and> rb_items (pool (at_limit_pool\<lparr>isGrowthBlocked := True\<rparr>)) = [2, 3, 4, 5]
   \<and> cacheL1 (at_limit_pool\<lparr>isGrowthBlocked := True\<rparr>) = \<lparr>chan_buf = [0, 1], chan_cap = 4\<rparr>"
  by (simp add: refill_def Let_def at_limit_pool_fields at_limit_pool_grow Length_def
        zeroRefillResult_def)

end
